theory Spec2Isabelle
  imports Main
begin

section \<open>Data model\<close>

text \<open>
  \<^verbatim>\<open>time.Time\<close> is modelled as an instant counted from the zero time, so that the zero
  value of the type is \<open>0\<close> and \<^verbatim>\<open>IsZero\<close> is the test for it.
\<close>

type_synonym time = int

definition Time_IsZero :: "time \<Rightarrow> bool" where
  "Time_IsZero t = (t = 0)"

text \<open>\<^verbatim>\<open>pkg/model/meta.go\<close>: extra data for a post.\<close>

record Meta =
  Posted :: time
  Title :: string
  Location :: string
  Comments :: string
  Tags :: "string list"
  Extra :: "(string \<times> string) list"

definition zeroMeta :: Meta where
  "zeroMeta = \<lparr>Posted = 0, Title = [], Location = [], Comments = [], Tags = [], Extra = []\<rparr>"

text \<open>
  Modelled from the spec: the type \<^verbatim>\<open>model.Image\<close> and its method \<^verbatim>\<open>IsZero\<close> are not
  among the sources. The spec has it as "decoded image metadata (dimensions, format)",
  "considered unset until successfully populated".
\<close>

record Image =
  Format :: string
  Width :: int
  Height :: int

definition zeroImage :: Image where
  "zeroImage = \<lparr>Format = [], Width = 0, Height = 0\<rparr>"

definition Image_IsZero :: "Image \<Rightarrow> bool" where
  "Image_IsZero i = (i = zeroImage)"

text \<open>
  Modelled from the spec: the type \<^verbatim>\<open>model.Post\<close> is not among the sources; the fields are
  the ones \<^verbatim>\<open>ReadImage\<close> and \<^verbatim>\<open>Render\<close> read and write.
\<close>

record Post =
  Original :: string
  File :: string
  Image :: Image
  Meta :: Meta

definition zeroPost :: Post where
  "zeroPost = \<lparr>Original = [], File = [], Image = zeroImage, Meta = zeroMeta\<rparr>"

text \<open>What the code reads of an \<^verbatim>\<open>os.FileInfo\<close>.\<close>

record FileInfo =
  Name :: string
  ModTime :: time
  IsDir :: bool

text \<open>
  Errors. \<open>Exception c m\<close> is \<^verbatim>\<open>exception.New(c).WithMessage(m)\<close> for a class string
  \<open>c\<close>; \<open>Wrapped e\<close> is \<^verbatim>\<open>exception.New(e)\<close> for an error \<open>e\<close>; \<open>Underlying s\<close> is an
  error that a collaborator (the operating system, the YAML reader, the image decoder,
  the template library) returns.
\<close>

datatype error =
    Exception string string
  | Wrapped error
  | Underlying string

text \<open>
  The directory tree that \<^verbatim>\<open>filepath.Walk\<close> finds under its root, children in the order
  in which the walk visits them. \<open>Unreadable n e\<close> is an entry whose \<^verbatim>\<open>lstat\<close> fails,
  or a directory whose names cannot be read, with the error \<open>e\<close>: for both the walk
  calls the walk function once with that error and does not descend.
\<close>

datatype node =
    FileEntry string time
  | DirEntry string time "node list"
  | Unreadable string error

fun node_name :: "node \<Rightarrow> string" where
  "node_name (FileEntry n t) = n"
| "node_name (DirEntry n t cs) = n"
| "node_name (Unreadable n e) = n"

fun node_info :: "node \<Rightarrow> FileInfo" where
  "node_info (FileEntry n t) = \<lparr>Name = n, ModTime = t, IsDir = False\<rparr>"
| "node_info (DirEntry n t cs) = \<lparr>Name = n, ModTime = t, IsDir = True\<rparr>"
| "node_info (Unreadable n e) = \<lparr>Name = n, ModTime = 0, IsDir = False\<rparr>"

text \<open>
  A compiled template: the shared namespace of named blocks, name and body, that
  successive calls of \<^verbatim>\<open>Parse\<close> on one \<^verbatim>\<open>*template.Template\<close> fill.
\<close>

type_synonym template = "(string \<times> string) list"

text \<open>
  Modelled from the spec: the type \<^verbatim>\<open>config.Config\<close> is not among the sources. The record
  holds the resolved values the engine asks for ("each with a documented default when
  unset"): \<^verbatim>\<open>ImagesOrDefault()\<close>, \<^verbatim>\<open>OutputOrDefault()\<close>, \<^verbatim>\<open>Layout.Pages\<close>,
  \<^verbatim>\<open>Layout.PostOrDefault()\<close>, \<^verbatim>\<open>Layout.PartialsOrDefault()\<close>, \<^verbatim>\<open>Layout.StaticsOrDefault()\<close>.
\<close>

record Config =
  ImagesOrDefault :: string
  OutputOrDefault :: string
  Pages :: "string list"
  PostOrDefault :: string
  PartialsOrDefault :: "string list"
  StaticsOrDefault :: "string list"

text \<open>The data a template is executed with.\<close>

record ViewModel =
  vmConfig :: Config
  vmPosts :: "Post list"
  vmPost :: Post
  vmPrevious :: Post
  vmNext :: Post

text \<open>What the engine does to the file system, in the order in which it does it.\<close>

datatype effect =
    MadeDir string
  | Created string
  | Executed template string ViewModel
  | Copied string string

text \<open>
  The collaborators of the engine. The constants of \<^verbatim>\<open>pkg/constants\<close>, the helpers of the
  engine package that are not among the sources (\<^verbatim>\<open>GetFileInfos\<close>, \<^verbatim>\<open>HasExtension\<close>,
  \<^verbatim>\<open>ReadYAML\<close>, the package function \<^verbatim>\<open>ReadImage\<close>, \<^verbatim>\<open>MakeDir\<close>, \<^verbatim>\<open>Copy\<close>), the method
  \<^verbatim>\<open>Post.Slug\<close>, and the functions of the standard library the engine calls are
  parameters of the model. \<open>Tree h root\<close> is the tree \<^verbatim>\<open>filepath.Walk\<close> finds at \<open>root\<close>.
  A function that fills a value behind a pointer takes the old value and returns the
  new one.
\<close>

record host =
  DiscoveryFileMeta :: string
  ImageExtensions :: "string list"
  OutputFileIndex :: string
  HasExtension :: "string \<Rightarrow> string list \<Rightarrow> bool"
  Join :: "string \<Rightarrow> string \<Rightarrow> string"
  Base :: "string \<Rightarrow> string"
  Stat :: "string \<Rightarrow> error + FileInfo"
  Tree :: "string \<Rightarrow> node"
  GetFileInfos :: "string \<Rightarrow> error + FileInfo list"
  ReadYAML :: "string \<Rightarrow> Meta \<Rightarrow> error + Meta"
  ReadImage :: "string \<Rightarrow> Image \<Rightarrow> error + Image"
  ReadFile :: "string \<Rightarrow> error + string"
  Parse :: "template \<Rightarrow> string \<Rightarrow> error + template"
  MakeDir :: "string \<Rightarrow> error option"
  Create :: "string \<Rightarrow> error option"
  Execute :: "template \<Rightarrow> ViewModel \<Rightarrow> error option"
  Copy :: "string \<Rightarrow> string \<Rightarrow> error option"
  Slug :: "Post \<Rightarrow> string"

text \<open>
  \<^verbatim>\<open>exception.New\<close> applied to the error a call returned: no error stays no error.
\<close>

definition exception_New :: "error option \<Rightarrow> error option" where
  "exception_New r = map_option Wrapped r"

section \<open>Discovery\<close>

text \<open>
  The loop of \<^verbatim>\<open>Engine.ReadImage\<close> over the file infos of the folder. Its state is the
  post under construction and \<^verbatim>\<open>modTime\<close>.
\<close>

fun ReadImage_loop ::
  "host \<Rightarrow> string \<Rightarrow> FileInfo list \<Rightarrow> Post \<times> time \<Rightarrow> error + Post \<times> time" where
  "ReadImage_loop h path [] st = Inr st"
| "ReadImage_loop h path (fi # files) (post, modTime) =
     (let name = Name fi in
      if name = DiscoveryFileMeta h then
        (case ReadYAML h (Join h path name) (Meta post) of
           Inl err \<Rightarrow> Inl err
         | Inr m \<Rightarrow> ReadImage_loop h path files (post\<lparr>Meta := m\<rparr>, modTime))
      else if HasExtension h name (ImageExtensions h) \<and> Image_IsZero (Image post) then
        (let post1 = post\<lparr>Original := Join h path name, File := name\<rparr> in
         case ReadImage h (Original post1) (Image post1) of
           Inl err \<Rightarrow> Inl err
         | Inr img \<Rightarrow> ReadImage_loop h path files (post1\<lparr>Image := img\<rparr>, ModTime fi))
      else ReadImage_loop h path files (post, modTime))"

text \<open>What \<^verbatim>\<open>Engine.ReadImage\<close> does after the loop.\<close>

definition ReadImage_finish :: "string \<Rightarrow> Post \<times> time \<Rightarrow> error + Post" where
  "ReadImage_finish path st =
     (case st of (post, modTime) \<Rightarrow>
        let post1 = (if Time_IsZero (Posted (Meta post))
                     then post\<lparr>Meta := (Meta post)\<lparr>Posted := modTime\<rparr>\<rparr> else post)
        in if Original post1 = [] then Inl (Exception ''no images found'' path)
           else Inr post1)"

definition Engine_ReadImage :: "host \<Rightarrow> string \<Rightarrow> error + Post" where
  "Engine_ReadImage h path =
     (case Stat h path of
        Inl err \<Rightarrow> Inl err
      | Inr stat \<Rightarrow>
          if \<not> IsDir stat then Inl (Exception ''not a directory'' path)
          else (case GetFileInfos h path of
                  Inl err \<Rightarrow> Inl err
                | Inr files \<Rightarrow>
                    if length files = 0 then Inl (Exception ''no child files found'' path)
                    else (case ReadImage_loop h path files (zeroPost, 0) of
                            Inl err \<Rightarrow> Inl err
                          | Inr st \<Rightarrow> ReadImage_finish path st)))"

text \<open>
  \<^verbatim>\<open>filepath.Walk\<close> of the standard library, for a walk function that never returns
  \<^verbatim>\<open>filepath.SkipDir\<close> (the one of \<^verbatim>\<open>DiscoverPosts\<close> returns the errors of its
  collaborators and exceptions of the engine only): the walk function is called on the
  root and then on every entry below it, a directory before its children, and the
  first error it returns ends the walk. The walk function mutates a captured variable;
  here it takes the old value and returns the new one.
\<close>

fun walk ::
  "(string \<Rightarrow> string \<Rightarrow> string) \<Rightarrow> (string \<Rightarrow> FileInfo \<Rightarrow> error option \<Rightarrow> 's \<Rightarrow> error + 's)
     \<Rightarrow> string \<Rightarrow> node \<Rightarrow> 's \<Rightarrow> error + 's"
and walk_names ::
  "(string \<Rightarrow> string \<Rightarrow> string) \<Rightarrow> (string \<Rightarrow> FileInfo \<Rightarrow> error option \<Rightarrow> 's \<Rightarrow> error + 's)
     \<Rightarrow> string \<Rightarrow> node list \<Rightarrow> 's \<Rightarrow> error + 's" where
  "walk J walkFn path (DirEntry n t cs) s =
     (case walkFn path (node_info (DirEntry n t cs)) None s of
        Inl err \<Rightarrow> Inl err
      | Inr s1 \<Rightarrow> walk_names J walkFn path cs s1)"
| "walk J walkFn path (FileEntry n t) s = walkFn path (node_info (FileEntry n t)) None s"
| "walk J walkFn path (Unreadable n e) s =
     walkFn path (node_info (Unreadable n e)) (Some e) s"
| "walk_names J walkFn path [] s = Inr s"
| "walk_names J walkFn path (c # cs) s =
     (case walk J walkFn (J path (node_name c)) c s of
        Inl err \<Rightarrow> Inl err
      | Inr s1 \<Rightarrow> walk_names J walkFn path cs s1)"

definition Walk ::
  "host \<Rightarrow> string \<Rightarrow> (string \<Rightarrow> FileInfo \<Rightarrow> error option \<Rightarrow> 's \<Rightarrow> error + 's) \<Rightarrow> 's \<Rightarrow> error + 's" where
  "Walk h root walkFn s = walk (Join h) walkFn root (Tree h root) s"

text \<open>The engine: its configuration (the logger does not affect control flow).\<close>

record Engine =
  Config :: Config

text \<open>The function literal \<^verbatim>\<open>DiscoverPosts\<close> passes to the walk; it appends to \<^verbatim>\<open>posts\<close>.\<close>

definition DiscoverPosts_walkFn ::
  "host \<Rightarrow> string \<Rightarrow> string \<Rightarrow> FileInfo \<Rightarrow> error option \<Rightarrow> Post list \<Rightarrow> error + Post list" where
  "DiscoverPosts_walkFn h imagesPath currentPath info err posts =
     (case err of
        Some e \<Rightarrow> Inl e
      | None \<Rightarrow>
          if currentPath = imagesPath then Inr posts
          else if IsDir info then
            (case Engine_ReadImage h currentPath of
               Inl e \<Rightarrow> Inl e
             | Inr post \<Rightarrow> Inr (posts @ [post]))
          else Inr posts)"

definition Engine_DiscoverPosts :: "host \<Rightarrow> Engine \<Rightarrow> error + Post list" where
  "Engine_DiscoverPosts h e =
     (let imagesPath = ImagesOrDefault (Config e) in
      case Walk h imagesPath (DiscoverPosts_walkFn h imagesPath) [] of
        Inl err \<Rightarrow> Inl err
      | Inr posts \<Rightarrow> Inr posts)"

section \<open>Output path, templates, rendering\<close>

text \<open>
  The operations that write return the error, if any, and the effects they had. The
  host is read as it was when the run started.
\<close>

definition Engine_CreateOutputPath :: "host \<Rightarrow> Engine \<Rightarrow> error option \<times> effect list" where
  "Engine_CreateOutputPath h e =
     (case Stat h (OutputOrDefault (Config e)) of
        Inl err \<Rightarrow>
          (case MakeDir h (OutputOrDefault (Config e)) of
             Some err1 \<Rightarrow> (exception_New (Some err1), [])
           | None \<Rightarrow> (exception_New None, [MadeDir (OutputOrDefault (Config e))]))
      | Inr info \<Rightarrow> (None, []))"

fun ReadPartials_loop :: "host \<Rightarrow> string list \<Rightarrow> string list \<Rightarrow> error + string list" where
  "ReadPartials_loop h [] partials = Inr partials"
| "ReadPartials_loop h (partialPath # rest) partials =
     (case ReadFile h partialPath of
        Inl err \<Rightarrow> Inl (Wrapped err)
      | Inr contents \<Rightarrow> ReadPartials_loop h rest (partials @ [contents]))"

definition Engine_ReadPartials :: "host \<Rightarrow> Engine \<Rightarrow> error + string list" where
  "Engine_ReadPartials h e = ReadPartials_loop h (PartialsOrDefault (Config e)) []"

text \<open>The loop of \<^verbatim>\<open>CompileTemplate\<close>: each \<^verbatim>\<open>Parse\<close> adds to the one template \<^verbatim>\<open>tmp\<close>.\<close>

fun CompileTemplate_loop :: "host \<Rightarrow> template \<Rightarrow> string list \<Rightarrow> error + template" where
  "CompileTemplate_loop h tmp [] = Inr tmp"
| "CompileTemplate_loop h tmp (partial # rest) =
     (case Parse h tmp partial of
        Inl err \<Rightarrow> Inl (Wrapped err)
      | Inr tmp1 \<Rightarrow> CompileTemplate_loop h tmp1 rest)"

definition Engine_CompileTemplate :: "host \<Rightarrow> string \<Rightarrow> string list \<Rightarrow> error + template" where
  "Engine_CompileTemplate h templatePath partials =
     (case ReadFile h templatePath of
        Inl err \<Rightarrow> Inl (Wrapped err)
      | Inr contents \<Rightarrow>
          (case CompileTemplate_loop h [] partials of
             Inl err \<Rightarrow> Inl err
           | Inr tmp \<Rightarrow>
               (case Parse h tmp contents of
                  Inl err \<Rightarrow> Inl (Wrapped err)
                | Inr final \<Rightarrow> Inr final)))"

definition Engine_WriteTemplate ::
  "host \<Rightarrow> template \<Rightarrow> string \<Rightarrow> ViewModel \<Rightarrow> error option \<times> effect list" where
  "Engine_WriteTemplate h tpl outputPath data =
     (case Create h outputPath of
        Some err \<Rightarrow> (Some err, [])
      | None \<Rightarrow>
          (case Execute h tpl data of
             Some err \<Rightarrow> (Some (Wrapped err), [Created outputPath])
           | None \<Rightarrow> (None, [Created outputPath, Executed tpl outputPath data])))"

text \<open>The first loop of \<^verbatim>\<open>Render\<close>, over the configured pages.\<close>

fun Render_pages ::
  "host \<Rightarrow> Engine \<Rightarrow> string list \<Rightarrow> Post list \<Rightarrow> string list \<Rightarrow> error option \<times> effect list" where
  "Render_pages h e partials posts [] = (None, [])"
| "Render_pages h e partials posts (pagePath # rest) =
     (case Engine_CompileTemplate h pagePath partials of
        Inl err \<Rightarrow> (Some err, [])
      | Inr page \<Rightarrow>
          (let pageOutputPath = Join h (OutputOrDefault (Config e)) (Base h pagePath) in
           case Engine_WriteTemplate h page pageOutputPath
                  \<lparr>vmConfig = Config e, vmPosts = posts, vmPost = zeroPost,
                   vmPrevious = zeroPost, vmNext = zeroPost\<rparr> of
             (Some err, effs) \<Rightarrow> (Some err, effs)
           | (None, effs) \<Rightarrow>
               (case Render_pages h e partials posts rest of
                  (r, effs1) \<Rightarrow> (r, effs @ effs1))))"

text \<open>
  The second loop of \<^verbatim>\<open>Render\<close>, \<^verbatim>\<open>for index, post := range posts\<close>, from \<open>index\<close> on.
  \<^verbatim>\<open>len(posts)-1\<close> is computed on Go's signed integers.
\<close>

function Render_posts ::
  "host \<Rightarrow> Engine \<Rightarrow> template \<Rightarrow> Post list \<Rightarrow> nat \<Rightarrow> error option \<times> effect list" where
  "Render_posts h e postTemplate posts index =
     (if index < length posts then
        (let post = posts ! index;
             slugPath = Join h (OutputOrDefault (Config e)) (Slug h post) in
         case MakeDir h slugPath of
           Some err \<Rightarrow> (exception_New (Some err), [])
         | None \<Rightarrow>
             (let previous = (if index > 0 then posts ! (index - 1) else zeroPost);
                  next = (if int index < int (length posts) - 1 then posts ! (index + 1)
                          else zeroPost) in
              case Engine_WriteTemplate h postTemplate (Join h slugPath (OutputFileIndex h))
                     \<lparr>vmConfig = Config e, vmPosts = [], vmPost = post,
                      vmPrevious = previous, vmNext = next\<rparr> of
                (Some err, effs) \<Rightarrow> (Some err, MadeDir slugPath # effs)
              | (None, effs) \<Rightarrow>
                  (case Copy h (Original post) (Join h slugPath (Base h (Original post))) of
                     Some err \<Rightarrow> (Some err, MadeDir slugPath # effs)
                   | None \<Rightarrow>
                       (case Render_posts h e postTemplate posts (index + 1) of
                          (r, effs1) \<Rightarrow>
                            (r, MadeDir slugPath # effs
                                @ Copied (Original post)
                                    (Join h slugPath (Base h (Original post))) # effs1)))))
      else (None, []))"
  by pat_completeness auto
termination
  by (relation "measure (\<lambda>(h, e, postTemplate, posts, index). length posts - index)") auto

declare Render_posts.simps [simp del]

definition Engine_Render :: "host \<Rightarrow> Engine \<Rightarrow> Post list \<Rightarrow> error option \<times> effect list" where
  "Engine_Render h e posts =
     (case Engine_ReadPartials h e of
        Inl err \<Rightarrow> (Some err, [])
      | Inr partials \<Rightarrow>
          (case Render_pages h e partials posts (Pages (Config e)) of
             (Some err, effs) \<Rightarrow> (Some err, effs)
           | (None, effs) \<Rightarrow>
               (case Engine_CompileTemplate h (PostOrDefault (Config e)) partials of
                  Inl err \<Rightarrow> (Some err, effs)
                | Inr postTemplate \<Rightarrow>
                    (case Render_posts h e postTemplate posts 0 of
                       (r, effs1) \<Rightarrow> (r, effs @ effs1)))))"

fun CopyStatics_loop :: "host \<Rightarrow> string \<Rightarrow> string list \<Rightarrow> error option \<times> effect list" where
  "CopyStatics_loop h outputPath [] = (None, [])"
| "CopyStatics_loop h outputPath (staticPath # rest) =
     (case Copy h staticPath outputPath of
        Some err \<Rightarrow> (Some err, [])
      | None \<Rightarrow>
          (case CopyStatics_loop h outputPath rest of
             (r, effs) \<Rightarrow> (r, Copied staticPath outputPath # effs)))"

definition Engine_CopyStatics :: "host \<Rightarrow> Engine \<Rightarrow> error option \<times> effect list" where
  "Engine_CopyStatics h e =
     CopyStatics_loop h (OutputOrDefault (Config e)) (StaticsOrDefault (Config e))"

section \<open>Generate\<close>

definition Engine_Generate :: "host \<Rightarrow> Engine \<Rightarrow> error option \<times> effect list" where
  "Engine_Generate h e =
     (case Engine_DiscoverPosts h e of
        Inl err \<Rightarrow> (Some err, [])
      | Inr posts \<Rightarrow>
          (case Engine_CreateOutputPath h e of
             (Some err, effs) \<Rightarrow> (Some err, effs)
           | (None, effs) \<Rightarrow>
               (case Engine_Render h e posts of
                  (Some err, effs1) \<Rightarrow> (Some err, effs @ effs1)
                | (None, effs1) \<Rightarrow>
                    (case Engine_CopyStatics h e of
                       (r, effs2) \<Rightarrow> (r, effs @ effs1 @ effs2)))))"

section \<open>Notions the properties are stated with\<close>

text \<open>The error with which the walk calls the walk function on an entry, if any.\<close>

fun node_err :: "node \<Rightarrow> error option" where
  "node_err (FileEntry n t) = None"
| "node_err (DirEntry n t cs) = None"
| "node_err (Unreadable n e) = Some e"

text \<open>
  Every entry of a tree with its path, the root first and a directory before what it
  holds: the entries at every depth, not only the children of the root.
\<close>

fun entries :: "(string \<Rightarrow> string \<Rightarrow> string) \<Rightarrow> string \<Rightarrow> node \<Rightarrow> (string \<times> node) list"
and entries_names ::
  "(string \<Rightarrow> string \<Rightarrow> string) \<Rightarrow> string \<Rightarrow> node list \<Rightarrow> (string \<times> node) list" where
  "entries J path (DirEntry n t cs) = (path, DirEntry n t cs) # entries_names J path cs"
| "entries J path (FileEntry n t) = [(path, FileEntry n t)]"
| "entries J path (Unreadable n e) = [(path, Unreadable n e)]"
| "entries_names J path [] = []"
| "entries_names J path (c # cs) = entries J (J path (node_name c)) c @ entries_names J path cs"

text \<open>The paths of the directories below the root, at any depth, in the walk's order.\<close>

definition folders :: "string \<Rightarrow> (string \<times> node) list \<Rightarrow> string list" where
  "folders root es = map fst (filter (\<lambda>(p, n). IsDir (node_info n) \<and> p \<noteq> root) es)"

definition post_folders :: "host \<Rightarrow> string \<Rightarrow> string list" where
  "post_folders h root = folders root (entries (Join h) root (Tree h root))"

text \<open>No entry under the root is unreadable.\<close>

definition readable :: "host \<Rightarrow> string \<Rightarrow> bool" where
  "readable h root =
     list_all (\<lambda>(p, n). node_err n = None) (entries (Join h) root (Tree h root))"

text \<open>
  Calling a function on a list of entries in order, up to the first error: what the
  walk does with its walk function.
\<close>

fun visit ::
  "(string \<Rightarrow> FileInfo \<Rightarrow> error option \<Rightarrow> 's \<Rightarrow> error + 's) \<Rightarrow> (string \<times> node) list
     \<Rightarrow> 's \<Rightarrow> error + 's" where
  "visit f [] s = Inr s"
| "visit f ((p, n) # es) s =
     (case f p (node_info n) (node_err n) s of
        Inl err \<Rightarrow> Inl err
      | Inr s1 \<Rightarrow> visit f es s1)"

text \<open>
  Parsing a list of sources in order into one namespace that starts empty, up to the
  first source that does not parse.
\<close>

definition parse_all :: "host \<Rightarrow> string list \<Rightarrow> error + template" where
  "parse_all h srcs =
     foldl (\<lambda>r src. case r of
                       Inl err \<Rightarrow> Inl err
                     | Inr tmp \<Rightarrow>
                         (case Parse h tmp src of
                            Inl err \<Rightarrow> Inl (Wrapped err)
                          | Inr tmp1 \<Rightarrow> Inr tmp1))
       (Inr []) srcs"







section \<open>A concrete host\<close>

text \<open>
  A small host on which the definitions above can be evaluated. Paths are joined with
  a slash and the base name is what follows the last slash (which is what the path
  functions of the standard library give on the clean relative paths used here); a
  name has an extension when it ends with it. The images root holds one folder
  \<^verbatim>\<open>a\<close> with a metadata file, two image files (the second one does not decode) and
  a nested folder \<^verbatim>\<open>b\<close> with one image; \<^verbatim>\<open>drafts\<close> holds a folder with an unreadable
  metadata file only (\<^verbatim>\<open>c\<close>), a folder with a text file only (\<^verbatim>\<open>d\<close>), an empty
  folder (\<^verbatim>\<open>e\<close>), a folder with a readable metadata file and a text file (\<^verbatim>\<open>f\<close>),
  and a folder with an image and a metadata file that sets no posted time (\<^verbatim>\<open>g\<close>).
\<close>

definition demo_HasExtension :: "string \<Rightarrow> string list \<Rightarrow> bool" where
  "demo_HasExtension name exts =
     list_ex (\<lambda>ext. drop (length name - length ext) name = ext) exts"

definition demo_Join :: "string \<Rightarrow> string \<Rightarrow> string" where
  "demo_Join a b = a @ ''/'' @ b"

definition demo_Base :: "string \<Rightarrow> string" where
  "demo_Base p = rev (takeWhile (\<lambda>c. c \<noteq> CHR ''/'') (rev p))"

definition demo_Tree :: node where
  "demo_Tree =
     DirEntry ''images'' 1
       [DirEntry ''a'' 2
          [DirEntry ''b'' 3 [FileEntry ''y.png'' 40],
           FileEntry ''meta.yml'' 20, FileEntry ''x.jpg'' 30, FileEntry ''z.jpg'' 35]]"

definition demo_dir :: "string \<Rightarrow> FileInfo" where
  "demo_dir n = \<lparr>Name = n, ModTime = 1, IsDir = True\<rparr>"

definition demo_file :: "string \<Rightarrow> time \<Rightarrow> FileInfo" where
  "demo_file n t = \<lparr>Name = n, ModTime = t, IsDir = False\<rparr>"

definition demo_folder_a :: "FileInfo list" where
  "demo_folder_a =
     [demo_dir ''b'', demo_file ''meta.yml'' 20, demo_file ''x.jpg'' 30,
      demo_file ''z.jpg'' 35]"

definition demo_Stat :: "string \<Rightarrow> error + FileInfo" where
  "demo_Stat p =
     (if p \<in> set [''images'', ''images/a'', ''images/a/b'', ''drafts'', ''drafts/c'',
                  ''drafts/d'', ''drafts/e'', ''drafts/f'', ''drafts/g'']
      then Inr (demo_dir (demo_Base p))
      else if p = ''images/a/x.jpg'' then Inr (demo_file ''x.jpg'' 30)
      else Inl (Underlying ''no such file or directory''))"

definition demo_GetFileInfos :: "string \<Rightarrow> error + FileInfo list" where
  "demo_GetFileInfos p =
     (if p = ''images/a'' then Inr demo_folder_a
      else if p = ''images/a/b'' then Inr [demo_file ''y.png'' 40]
      else if p = ''drafts/c'' then Inr [demo_file ''meta.yml'' 5]
      else if p = ''drafts/d'' then Inr [demo_file ''notes.txt'' 6]
      else if p = ''drafts/e'' then Inr []
      else if p = ''drafts/f'' then Inr [demo_file ''meta.yml'' 8, demo_file ''notes.txt'' 9]
      else if p = ''drafts/g'' then Inr [demo_file ''meta.yml'' 10, demo_file ''p.png'' 77]
      else Inl (Underlying ''no such file or directory''))"

definition demo_ReadYAML :: "string \<Rightarrow> Meta \<Rightarrow> error + Meta" where
  "demo_ReadYAML p m =
     (if p = ''images/a/meta.yml'' then Inr (m\<lparr>Posted := 7, Title := ''Sunset''\<rparr>)
      else if p = ''drafts/f/meta.yml'' \<or> p = ''drafts/g/meta.yml''
        then Inr (m\<lparr>Title := ''Draft''\<rparr>)
      else Inl (Underlying ''yaml: cannot unmarshal''))"

definition demo_ReadImage :: "string \<Rightarrow> Image \<Rightarrow> error + Image" where
  "demo_ReadImage p i =
     (if p = ''images/a/x.jpg'' then Inr \<lparr>Format = ''jpeg'', Width = 640, Height = 480\<rparr>
      else if p = ''images/a/b/y.png'' then Inr \<lparr>Format = ''png'', Width = 32, Height = 32\<rparr>
      else if p = ''drafts/g/p.png'' then Inr \<lparr>Format = ''png'', Width = 16, Height = 16\<rparr>
      else Inl (Underlying ''image: unknown format''))"

definition demo_ReadFile :: "string \<Rightarrow> error + string" where
  "demo_ReadFile p =
     (if p = ''layout/head.html'' then Inr ''{{define `head`}}A{{end}}''
      else if p = ''layout/head2.html'' then Inr ''{{define `head`}}B{{end}}''
      else if p = ''layout/index.html'' then Inr ''{{template `head`}}index''
      else if p = ''layout/post.html'' then Inr ''{{template `head`}}post''
      else Inl (Underlying ''no such file or directory''))"

text \<open>
  The template library of the concrete host: a source either defines the block
  \<^verbatim>\<open>head\<close> or is the body of the root template, whose name is empty, and a block that
  is defined again replaces the earlier one, as the documentation of \<^verbatim>\<open>html/template\<close>
  has it ("Templates can be redefined in successive calls to Parse").
\<close>

fun redefine :: "string \<Rightarrow> string \<Rightarrow> template \<Rightarrow> template" where
  "redefine n b [] = [(n, b)]"
| "redefine n b ((m, c) # tmp) = (if m = n then (n, b) # tmp else (m, c) # redefine n b tmp)"

definition demo_Parse :: "template \<Rightarrow> string \<Rightarrow> error + template" where
  "demo_Parse tmp src =
     (if src = ''{{define `head`}}A{{end}}'' then Inr (redefine ''head'' ''A'' tmp)
      else if src = ''{{define `head`}}B{{end}}'' then Inr (redefine ''head'' ''B'' tmp)
      else if src = ''{{template `head`}}index'' \<or> src = ''{{template `head`}}post''
        then Inr (redefine [] src tmp)
      else Inl (Underlying ''template: unexpected token''))"

definition demo_Slug :: "Post \<Rightarrow> string" where
  "demo_Slug p = (if Title (Meta p) = [] then File p else Title (Meta p))"

definition demo :: host where
  "demo =
     \<lparr>DiscoveryFileMeta = ''meta.yml'', ImageExtensions = [''.jpg'', ''.png''],
      OutputFileIndex = ''index.html'', HasExtension = demo_HasExtension,
      Join = demo_Join, Base = demo_Base, Stat = demo_Stat, Tree = (\<lambda>root. demo_Tree),
      GetFileInfos = demo_GetFileInfos, ReadYAML = demo_ReadYAML,
      ReadImage = demo_ReadImage, ReadFile = demo_ReadFile, Parse = demo_Parse,
      MakeDir = (\<lambda>p. None), Create = (\<lambda>p. None), Execute = (\<lambda>tpl data. None),
      Copy = (\<lambda>src dst. None), Slug = demo_Slug\<rparr>"

definition demo_Config :: Config where
  "demo_Config =
     \<lparr>ImagesOrDefault = ''images'', OutputOrDefault = ''out'',
      Pages = [''layout/index.html''], PostOrDefault = ''layout/post.html'',
      PartialsOrDefault = [''layout/head.html''], StaticsOrDefault = [''static'']\<rparr>"

definition demo_Engine :: Engine where
  "demo_Engine = \<lparr>Config = demo_Config\<rparr>"

definition demo_post_a :: Post where
  "demo_post_a =
     \<lparr>Original = ''images/a/x.jpg'', File = ''x.jpg'',
      Image = \<lparr>Format = ''jpeg'', Width = 640, Height = 480\<rparr>,
      Meta = \<lparr>Posted = 7, Title = ''Sunset'', Location = [], Comments = [], Tags = [],
              Extra = []\<rparr>\<rparr>"

definition demo_post_b :: Post where
  "demo_post_b =
     \<lparr>Original = ''images/a/b/y.png'', File = ''y.png'',
      Image = \<lparr>Format = ''png'', Width = 32, Height = 32\<rparr>,
      Meta = \<lparr>Posted = 40, Title = [], Location = [], Comments = [], Tags = [],
              Extra = []\<rparr>\<rparr>"

definition demo_post_g :: Post where
  "demo_post_g =
     \<lparr>Original = ''drafts/g/p.png'', File = ''p.png'',
      Image = \<lparr>Format = ''png'', Width = 16, Height = 16\<rparr>,
      Meta = \<lparr>Posted = 77, Title = ''Draft'', Location = [], Comments = [], Tags = [],
              Extra = []\<rparr>\<rparr>"

section \<open>Properties of ReadImage\<close>

lemma loop_append:
  "ReadImage_loop h path (xs @ ys) st =
     (case ReadImage_loop h path xs st of
        Inl err \<Rightarrow> Inl err
      | Inr st1 \<Rightarrow> ReadImage_loop h path ys st1)"
proof (induction xs arbitrary: st)
  case Nil
  show ?case by simp
next
  case (Cons x xs)
  obtain post t where st: "st = (post, t)" by (cases st)
  show ?case unfolding st
    by (simp add: Let_def Cons.IH split: sum.splits)
qed

lemma loop_host_listing:
  "ReadImage_loop (h\<lparr>GetFileInfos := g\<rparr>) path files st = ReadImage_loop h path files st"
proof (induction files arbitrary: st)
  case Nil
  show ?case by simp
next
  case (Cons x xs)
  obtain post t where st: "st = (post, t)" by (cases st)
  show ?case unfolding st
    by (simp add: Let_def Cons.IH split: sum.splits)
qed

lemma loop_no_image:
  assumes "\<forall>fi\<in>set files. \<not> HasExtension h (Name fi) (ImageExtensions h)"
      and "ReadImage_loop h path files (post, t) = Inr (post1, t1)"
  shows "Original post1 = Original post \<and> File post1 = File post
         \<and> Image post1 = Image post \<and> t1 = t"
  using assms
proof (induction files arbitrary: post)
  case Nil
  then show ?case by simp
next
  case (Cons fi files)
  show ?case
  proof (cases "Name fi = DiscoveryFileMeta h")
    case True
    with Cons.prems(2) obtain m where
      r: "ReadImage_loop h path files (post\<lparr>Meta := m\<rparr>, t) = Inr (post1, t1)"
      by (auto simp: Let_def split: sum.splits)
    from Cons.IH [OF _ r] Cons.prems(1) show ?thesis by simp
  next
    case False
    with Cons.prems have r: "ReadImage_loop h path files (post, t) = Inr (post1, t1)"
      by (simp add: Let_def)
    from Cons.IH [OF _ r] Cons.prems(1) show ?thesis by simp
  qed
qed

lemma loop_meta_absent:
  assumes "DiscoveryFileMeta h \<notin> Name ` set files"
      and "ReadImage_loop h path files (post, t) = Inr (post1, t1)"
  shows "Meta post1 = Meta post"
  using assms
proof (induction files arbitrary: post t)
  case Nil
  then show ?case by simp
next
  case (Cons fi files)
  from Cons.prems(1) have ne: "Name fi \<noteq> DiscoveryFileMeta h"
    and rest: "DiscoveryFileMeta h \<notin> Name ` set files" by auto
  show ?case
  proof (cases "HasExtension h (Name fi) (ImageExtensions h) \<and> Image_IsZero (Image post)")
    case True
    with ne Cons.prems(2) obtain img where
      r: "ReadImage_loop h path files
            (post\<lparr>Original := Join h path (Name fi), File := Name fi, Image := img\<rparr>, ModTime fi)
          = Inr (post1, t1)"
      by (auto simp: Let_def split: sum.splits)
    from Cons.IH [OF rest r] show ?thesis by simp
  next
    case False
    with ne Cons.prems(2) have r: "ReadImage_loop h path files (post, t) = Inr (post1, t1)"
      by (auto simp: Let_def)
    from Cons.IH [OF rest r] show ?thesis .
  qed
qed

lemma loop_meta_read:
  assumes "distinct (map Name files)"
      and "DiscoveryFileMeta h \<in> Name ` set files"
      and "ReadImage_loop h path files (post, t) = Inr (post1, t1)"
  shows "ReadYAML h (Join h path (DiscoveryFileMeta h)) (Meta post) = Inr (Meta post1)"
  using assms
proof (induction files arbitrary: post t)
  case Nil
  then show ?case by simp
next
  case (Cons fi files)
  show ?case
  proof (cases "Name fi = DiscoveryFileMeta h")
    case True
    with Cons.prems(1) have rest: "DiscoveryFileMeta h \<notin> Name ` set files" by auto
    from True Cons.prems(3) obtain m where
      m: "ReadYAML h (Join h path (DiscoveryFileMeta h)) (Meta post) = Inr m"
      and r: "ReadImage_loop h path files (post\<lparr>Meta := m\<rparr>, t) = Inr (post1, t1)"
      by (auto simp: Let_def split: sum.splits)
    from loop_meta_absent [OF rest r] m show ?thesis by simp
  next
    case False
    with Cons.prems have d: "distinct (map Name files)"
      and rest: "DiscoveryFileMeta h \<in> Name ` set files" by auto
    show ?thesis
    proof (cases "HasExtension h (Name fi) (ImageExtensions h) \<and> Image_IsZero (Image post)")
      case True
      with False Cons.prems(3) obtain img where
        r: "ReadImage_loop h path files
              (post\<lparr>Original := Join h path (Name fi), File := Name fi, Image := img\<rparr>, ModTime fi)
            = Inr (post1, t1)"
        by (auto simp: Let_def split: sum.splits)
      from Cons.IH [OF d rest r] show ?thesis by simp
    next
      case F2: False
      with False Cons.prems(3) have r: "ReadImage_loop h path files (post, t) = Inr (post1, t1)"
        by (auto simp: Let_def)
      from Cons.IH [OF d rest r] show ?thesis .
    qed
  qed
qed

lemma loop_read_fails:
  assumes "\<forall>fi\<in>set files. \<not> HasExtension h (Name fi) (ImageExtensions h)"
      and "DiscoveryFileMeta h \<in> Name ` set files"
      and "ReadYAML h (Join h path (DiscoveryFileMeta h)) (Meta post) = Inl err"
  shows "ReadImage_loop h path files (post, t) = Inl err"
  using assms
proof (induction files)
  case Nil
  then show ?case by simp
next
  case (Cons fi files)
  show ?case
  proof (cases "Name fi = DiscoveryFileMeta h")
    case True
    with Cons.prems(3) show ?thesis by (simp add: Let_def)
  next
    case False
    with Cons.prems Cons.IH show ?thesis by (simp add: Let_def)
  qed
qed

lemma loop_no_image_ok:
  assumes "\<forall>fi\<in>set files. \<not> HasExtension h (Name fi) (ImageExtensions h)"
      and "DiscoveryFileMeta h \<notin> Name ` set files"
  shows "ReadImage_loop h path files (post, t) = Inr (post, t)"
  using assms by (induction files) (auto simp: Let_def)

lemma loop_read_ok:
  assumes "\<forall>fi\<in>set files. \<not> HasExtension h (Name fi) (ImageExtensions h)"
      and "distinct (map Name files)"
      and "DiscoveryFileMeta h \<in> Name ` set files"
      and "ReadYAML h (Join h path (DiscoveryFileMeta h)) (Meta post) = Inr m"
  shows "ReadImage_loop h path files (post, t) = Inr (post\<lparr>Meta := m\<rparr>, t)"
  using assms
proof (induction files)
  case Nil
  then show ?case by simp
next
  case (Cons fi files)
  show ?case
  proof (cases "Name fi = DiscoveryFileMeta h")
    case True
    with Cons.prems(2) have rest: "DiscoveryFileMeta h \<notin> Name ` set files" by auto
    from Cons.prems(1) have ni: "\<forall>fi\<in>set files. \<not> HasExtension h (Name fi) (ImageExtensions h)"
      by simp
    from True Cons.prems(4) loop_no_image_ok [OF ni rest] show ?thesis
      by (simp add: Let_def)
  next
    case False
    with Cons.prems Cons.IH show ?thesis by (auto simp: Let_def)
  qed
qed

lemma ReadImage_unfold:
  assumes "Stat h path = Inr stat" and "IsDir stat" and "GetFileInfos h path = Inr files"
      and "files \<noteq> []"
  shows "Engine_ReadImage h path =
           (case ReadImage_loop h path files (zeroPost, 0) of
              Inl err \<Rightarrow> Inl err
            | Inr st \<Rightarrow> ReadImage_finish path st)"
  using assms by (simp add: Engine_ReadImage_def)

text \<open>
  C6 (as amended). With the folder stat-ed as a directory and its listing read: an
  empty listing fails with "no child files found". A non-empty listing in which no
  name has a recognized image extension never yields a post; the error is "no images
  found" when the listing has no metadata file, and also when it has one (names
  distinct) whose read succeeds; when the read of the metadata file fails, the error
  returned is the error of that read.
\<close>

theorem ReadImage_no_files_no_images:
  assumes st: "Stat h path = Inr stat" and dir: "IsDir stat"
      and ls: "GetFileInfos h path = Inr files"
  shows "(files = [] \<longrightarrow>
            Engine_ReadImage h path = Inl (Exception ''no child files found'' path))
       \<and> (files \<noteq> [] \<and> (\<forall>fi\<in>set files. \<not> HasExtension h (Name fi) (ImageExtensions h)) \<longrightarrow>
            (\<exists>err. Engine_ReadImage h path = Inl err)
          \<and> (DiscoveryFileMeta h \<notin> Name ` set files \<longrightarrow>
               Engine_ReadImage h path = Inl (Exception ''no images found'' path))
          \<and> (\<forall>err. DiscoveryFileMeta h \<in> Name ` set files
                    \<and> ReadYAML h (Join h path (DiscoveryFileMeta h)) zeroMeta = Inl err \<longrightarrow>
               Engine_ReadImage h path = Inl err)
          \<and> (\<forall>m. DiscoveryFileMeta h \<in> Name ` set files \<and> distinct (map Name files)
                  \<and> ReadYAML h (Join h path (DiscoveryFileMeta h)) zeroMeta = Inr m \<longrightarrow>
               Engine_ReadImage h path = Inl (Exception ''no images found'' path)))"
proof (intro conjI impI allI)
  assume "files = []"
  with st dir ls show "Engine_ReadImage h path = Inl (Exception ''no child files found'' path)"
    by (simp add: Engine_ReadImage_def)
next
  assume a: "files \<noteq> [] \<and> (\<forall>fi\<in>set files. \<not> HasExtension h (Name fi) (ImageExtensions h))"
  then have ne: "files \<noteq> []"
    and ni: "\<forall>fi\<in>set files. \<not> HasExtension h (Name fi) (ImageExtensions h)" by auto
  note E = ReadImage_unfold [OF st dir ls ne]
  have zm: "Meta zeroPost = zeroMeta" by (simp add: zeroPost_def)
  show "\<exists>err. Engine_ReadImage h path = Inl err"
  proof (cases "ReadImage_loop h path files (zeroPost, 0)")
    case (Inl err)
    with E show ?thesis by simp
  next
    case (Inr s)
    obtain post1 t1 where s: "s = (post1, t1)" by (cases s)
    from loop_no_image [OF ni Inr [unfolded s]] have "Original post1 = []"
      by (simp add: zeroPost_def)
    with E Inr s show ?thesis by (simp add: ReadImage_finish_def)
  qed
  show "Engine_ReadImage h path = Inl (Exception ''no images found'' path)"
    if "DiscoveryFileMeta h \<notin> Name ` set files"
    using E loop_no_image_ok [OF ni that, of path zeroPost 0]
    by (simp add: ReadImage_finish_def zeroPost_def zeroMeta_def Time_IsZero_def)
  show "Engine_ReadImage h path = Inl err"
    if "DiscoveryFileMeta h \<in> Name ` set files
        \<and> ReadYAML h (Join h path (DiscoveryFileMeta h)) zeroMeta = Inl err" for err
    using E loop_read_fails [OF ni, of path zeroPost err 0] that zm by simp
  show "Engine_ReadImage h path = Inl (Exception ''no images found'' path)"
    if "DiscoveryFileMeta h \<in> Name ` set files \<and> distinct (map Name files)
        \<and> ReadYAML h (Join h path (DiscoveryFileMeta h)) zeroMeta = Inr m" for m
    using E loop_read_ok [OF ni, of path zeroPost m 0] that zm
    by (simp add: ReadImage_finish_def zeroPost_def)
qed

lemmas demo_defs = demo_def demo_Stat_def demo_GetFileInfos_def demo_folder_a_def demo_dir_def
  demo_file_def demo_Join_def demo_Base_def demo_HasExtension_def demo_ReadYAML_def
  demo_ReadImage_def

theorem ReadImage_no_files_no_images_witness:
  "Engine_ReadImage demo ''drafts/e'' = Inl (Exception ''no child files found'' ''drafts/e'')
   \<and> Engine_ReadImage demo ''drafts/d'' = Inl (Exception ''no images found'' ''drafts/d'')
   \<and> Engine_ReadImage demo ''drafts/c'' = Inl (Underlying ''yaml: cannot unmarshal'')
   \<and> Engine_ReadImage demo ''drafts/f'' = Inl (Exception ''no images found'' ''drafts/f'')"
  using ReadImage_no_files_no_images [of demo "''drafts/e''" "demo_dir ''e''" "[]"]
        ReadImage_no_files_no_images [of demo "''drafts/d''" "demo_dir ''d''" "[demo_file ''notes.txt'' 6]"]
        ReadImage_no_files_no_images [of demo "''drafts/c''" "demo_dir ''c''" "[demo_file ''meta.yml'' 5]"]
        ReadImage_no_files_no_images [of demo "''drafts/f''" "demo_dir ''f''"
              "[demo_file ''meta.yml'' 8, demo_file ''notes.txt'' 9]"]
  by (simp add: demo_defs)

text \<open>
  C6 as stated fails: a folder holding only a metadata file that cannot be read has a
  non-empty listing without an image, and \<^verbatim>\<open>ReadImage\<close> returns the error of the read,
  not "no images found".
\<close>

theorem ReadImage_bad_meta_counterexample:
  "Stat demo ''drafts/c'' = Inr (demo_dir ''c'') \<and> IsDir (demo_dir ''c'')
   \<and> GetFileInfos demo ''drafts/c'' = Inr [demo_file ''meta.yml'' 5]
   \<and> \<not> HasExtension demo (Name (demo_file ''meta.yml'' 5)) (ImageExtensions demo)
   \<and> Engine_ReadImage demo ''drafts/c'' = Inl (Underlying ''yaml: cannot unmarshal'')"
  by (simp add: demo_defs Engine_ReadImage_def zeroPost_def)

lemma loop_image_source:
  assumes "ReadImage_loop h path files (post, t) = Inr (post1, t1)"
  shows "(Original post1 = Original post \<and> File post1 = File post
            \<and> Image post1 = Image post \<and> t1 = t)
       \<or> (\<exists>fi\<in>set files. HasExtension h (Name fi) (ImageExtensions h)
             \<and> Original post1 = Join h path (Name fi) \<and> File post1 = Name fi
             \<and> t1 = ModTime fi)"
  using assms
proof (induction files arbitrary: post t)
  case Nil
  then show ?case by simp
next
  case (Cons fi files)
  show ?case
  proof (cases "Name fi = DiscoveryFileMeta h")
    case True
    with Cons.prems obtain m where
      r: "ReadImage_loop h path files (post\<lparr>Meta := m\<rparr>, t) = Inr (post1, t1)"
      by (auto simp: Let_def split: sum.splits)
    from Cons.IH [OF r] show ?thesis by auto
  next
    case False
    show ?thesis
    proof (cases "HasExtension h (Name fi) (ImageExtensions h) \<and> Image_IsZero (Image post)")
      case True
      with False Cons.prems obtain img where
        r: "ReadImage_loop h path files
              (post\<lparr>Original := Join h path (Name fi), File := Name fi, Image := img\<rparr>, ModTime fi)
            = Inr (post1, t1)"
        by (auto simp: Let_def split: sum.splits)
      from Cons.IH [OF r] True show ?thesis by auto
    next
      case F2: False
      with False Cons.prems have r: "ReadImage_loop h path files (post, t) = Inr (post1, t1)"
        by (auto simp: Let_def)
      from Cons.IH [OF r] show ?thesis by auto
    qed
  qed
qed

lemma ReadImage_success:
  assumes "Engine_ReadImage h path = Inr post" and "GetFileInfos h path = Inr files"
  shows "\<exists>post1 t1. ReadImage_loop h path files (zeroPost, 0) = Inr (post1, t1)
           \<and> ReadImage_finish path (post1, t1) = Inr post"
  using assms
  by (auto simp: Engine_ReadImage_def split: sum.splits if_splits)

lemma finish_success:
  assumes "ReadImage_finish path (post1, t1) = Inr post"
  shows "Original post = Original post1 \<and> File post = File post1 \<and> Image post = Image post1
         \<and> Original post1 \<noteq> []
         \<and> Meta post = (if Posted (Meta post1) = 0 then (Meta post1)\<lparr>Posted := t1\<rparr>
                        else Meta post1)"
  using assms
  by (auto simp: ReadImage_finish_def Time_IsZero_def Let_def split: if_splits)

text \<open>
  C4. When \<^verbatim>\<open>ReadImage\<close> produces a post for a folder (names in the listing distinct),
  the post is made from an image file of the listing, and: with a metadata file in the
  listing, the read of that file on the zero value succeeded and \<^verbatim>\<open>Meta.Posted\<close> is
  its posted time when that is not zero, the modification time of the image file when
  it is zero; without a metadata file, \<^verbatim>\<open>Meta.Posted\<close> is the modification time of the
  image file.
\<close>

theorem ReadImage_posted:
  assumes ok: "Engine_ReadImage h path = Inr post"
      and ls: "GetFileInfos h path = Inr files"
      and dist: "distinct (map Name files)"
  shows "\<exists>fi\<in>set files. HasExtension h (Name fi) (ImageExtensions h)
           \<and> File post = Name fi \<and> Original post = Join h path (Name fi)
           \<and> (if DiscoveryFileMeta h \<in> Name ` set files
              then \<exists>m. ReadYAML h (Join h path (DiscoveryFileMeta h)) zeroMeta = Inr m
                     \<and> Posted (Meta post) = (if Posted m \<noteq> 0 then Posted m else ModTime fi)
              else Posted (Meta post) = ModTime fi)"
proof -
  from ReadImage_success [OF ok ls] obtain post1 t1 where
    loop: "ReadImage_loop h path files (zeroPost, 0) = Inr (post1, t1)"
    and fin: "ReadImage_finish path (post1, t1) = Inr post" by blast
  note F = finish_success [OF fin]
  from F have "Original post1 \<noteq> Original zeroPost" by (simp add: zeroPost_def)
  with loop_image_source [OF loop] obtain fi where
    fi: "fi \<in> set files" "HasExtension h (Name fi) (ImageExtensions h)"
        "Original post1 = Join h path (Name fi)" "File post1 = Name fi" "t1 = ModTime fi"
    by blast
  have zm: "Meta zeroPost = zeroMeta" by (simp add: zeroPost_def)
  have M: "if DiscoveryFileMeta h \<in> Name ` set files
        then \<exists>m. ReadYAML h (Join h path (DiscoveryFileMeta h)) zeroMeta = Inr m
               \<and> Posted (Meta post) = (if Posted m \<noteq> 0 then Posted m else ModTime fi)
        else Posted (Meta post) = ModTime fi"
  proof (cases "DiscoveryFileMeta h \<in> Name ` set files")
    case True
    from loop_meta_read [OF dist True loop] zm
    have "ReadYAML h (Join h path (DiscoveryFileMeta h)) zeroMeta = Inr (Meta post1)" by simp
    moreover from F fi(5)
    have "Posted (Meta post) = (if Posted (Meta post1) \<noteq> 0 then Posted (Meta post1) else ModTime fi)"
      by simp
    ultimately show ?thesis using True by auto
  next
    case False
    from loop_meta_absent [OF False loop] zm have "Meta post1 = zeroMeta" by simp
    with F fi(5) have "Posted (Meta post) = ModTime fi" by (simp add: zeroMeta_def)
    with False show ?thesis by simp
  qed
  from F fi(2,3,4) have P: "HasExtension h (Name fi) (ImageExtensions h)
      \<and> File post = Name fi \<and> Original post = Join h path (Name fi)" by simp
  show ?thesis
  proof (rule bexI [of _ fi])
    show "fi \<in> set files" by fact
    from P M show "HasExtension h (Name fi) (ImageExtensions h)
           \<and> File post = Name fi \<and> Original post = Join h path (Name fi)
           \<and> (if DiscoveryFileMeta h \<in> Name ` set files
              then \<exists>m. ReadYAML h (Join h path (DiscoveryFileMeta h)) zeroMeta = Inr m
                     \<and> Posted (Meta post) = (if Posted m \<noteq> 0 then Posted m else ModTime fi)
              else Posted (Meta post) = ModTime fi)"
      by (iprover intro: conjI elim: conjE)
  qed
qed

theorem ReadImage_posted_witness:
  "Engine_ReadImage demo ''images/a'' = Inr demo_post_a
   \<and> DiscoveryFileMeta demo \<in> Name ` set demo_folder_a
   \<and> ReadYAML demo (Join demo ''images/a'' (DiscoveryFileMeta demo)) zeroMeta
       = Inr (zeroMeta\<lparr>Posted := 7, Title := ''Sunset''\<rparr>)
   \<and> Posted (Meta demo_post_a) = 7
   \<and> Engine_ReadImage demo ''images/a/b'' = Inr demo_post_b
   \<and> DiscoveryFileMeta demo \<notin> Name ` set [demo_file ''y.png'' 40]
   \<and> Posted (Meta demo_post_b) = 40
   \<and> Engine_ReadImage demo ''drafts/g'' = Inr demo_post_g
   \<and> ReadYAML demo (Join demo ''drafts/g'' (DiscoveryFileMeta demo)) zeroMeta
       = Inr (zeroMeta\<lparr>Title := ''Draft''\<rparr>)
   \<and> Posted (Meta demo_post_g) = 77"
proof -
  have a: "Engine_ReadImage demo ''images/a'' = Inr demo_post_a" by code_simp
  have b: "Engine_ReadImage demo ''images/a/b'' = Inr demo_post_b" by code_simp
  have g: "Engine_ReadImage demo ''drafts/g'' = Inr demo_post_g" by code_simp
  have la: "GetFileInfos demo ''images/a'' = Inr demo_folder_a" by (simp add: demo_defs)
  have lb: "GetFileInfos demo ''images/a/b'' = Inr [demo_file ''y.png'' 40]"
    by (simp add: demo_defs)
  have lg: "GetFileInfos demo ''drafts/g'' = Inr [demo_file ''meta.yml'' 10, demo_file ''p.png'' 77]"
    by (simp add: demo_defs)
  have da: "distinct (map Name demo_folder_a)" by (simp add: demo_defs)
  have db: "distinct (map Name [demo_file ''y.png'' 40])" by simp
  have dg: "distinct (map Name [demo_file ''meta.yml'' 10, demo_file ''p.png'' 77])"
    by (simp add: demo_defs)
  from ReadImage_posted [OF a la da] ReadImage_posted [OF b lb db] ReadImage_posted [OF g lg dg]
       a b g
  show ?thesis
    by (simp add: demo_defs demo_post_a_def demo_post_b_def demo_post_g_def zeroMeta_def)
qed

lemma loop_skip_extras:
  assumes "\<not> HasExtension h (DiscoveryFileMeta h) (ImageExtensions h)"
      and "\<not> Image_IsZero (Image post)"
  shows "ReadImage_loop h path ys (post, t) =
         ReadImage_loop h path
           (filter (\<lambda>y. \<not> HasExtension h (Name y) (ImageExtensions h)) ys) (post, t)"
  using assms(2)
proof (induction ys arbitrary: post)
  case Nil
  show ?case by simp
next
  case (Cons y ys)
  show ?case
  proof (cases "Name y = DiscoveryFileMeta h")
    case True
    with assms(1) have keep: "\<not> HasExtension h (Name y) (ImageExtensions h)" by simp
    show ?thesis
    proof (cases "ReadYAML h (Join h path (Name y)) (Meta post)")
      case (Inl err)
      with True keep show ?thesis by (simp add: Let_def)
    next
      case (Inr m)
      from Cons.prems have "\<not> Image_IsZero (Image (post\<lparr>Meta := m\<rparr>))" by simp
      from Cons.IH [OF this] True keep Inr show ?thesis by (simp add: Let_def)
    qed
  next
    case False
    with Cons.IH [OF Cons.prems] Cons.prems show ?thesis by (simp add: Let_def)
  qed
qed

lemma loop_image_kept:
  assumes "\<not> Image_IsZero (Image post)"
      and "ReadImage_loop h path ys (post, t) = Inr (post1, t1)"
  shows "Original post1 = Original post \<and> File post1 = File post
         \<and> Image post1 = Image post \<and> t1 = t"
  using assms
proof (induction ys arbitrary: post)
  case Nil
  then show ?case by simp
next
  case (Cons y ys)
  show ?case
  proof (cases "Name y = DiscoveryFileMeta h")
    case True
    with Cons.prems(2) obtain m where
      r: "ReadImage_loop h path ys (post\<lparr>Meta := m\<rparr>, t) = Inr (post1, t1)"
      by (auto simp: Let_def split: sum.splits)
    from Cons.prems(1) have "\<not> Image_IsZero (Image (post\<lparr>Meta := m\<rparr>))" by simp
    from Cons.IH [OF this r] show ?thesis by simp
  next
    case False
    with Cons.prems have r: "ReadImage_loop h path ys (post, t) = Inr (post1, t1)"
      by (simp add: Let_def)
    from Cons.IH [OF Cons.prems(1) r] show ?thesis .
  qed
qed

text \<open>The step of the loop at the first recognized image, after a prefix without one.\<close>

lemma loop_at_first_image:
  assumes nometa: "\<not> HasExtension h (DiscoveryFileMeta h) (ImageExtensions h)"
      and first: "HasExtension h (Name f) (ImageExtensions h)"
      and zero: "Image post = zeroImage"
  shows "ReadImage_loop h path (f # ys) (post, t) =
           (case ReadImage h (Join h path (Name f)) zeroImage of
              Inl err \<Rightarrow> Inl err
            | Inr img \<Rightarrow>
                ReadImage_loop h path ys
                  (post\<lparr>Original := Join h path (Name f), File := Name f, Image := img\<rparr>,
                   ModTime f))"
proof -
  from nometa first have "Name f \<noteq> DiscoveryFileMeta h" by auto
  with first zero show ?thesis
    by (simp add: Let_def Image_IsZero_def split: sum.splits)
qed

lemma loop_first_image:
  assumes nometa: "\<not> HasExtension h (DiscoveryFileMeta h) (ImageExtensions h)"
      and before: "\<forall>x\<in>set xs. \<not> HasExtension h (Name x) (ImageExtensions h)"
      and first: "HasExtension h (Name f) (ImageExtensions h)"
      and populated: "\<forall>img. ReadImage h (Join h path (Name f)) zeroImage = Inr img
                        \<longrightarrow> \<not> Image_IsZero img"
      and loop: "ReadImage_loop h path (xs @ f # ys) (zeroPost, 0) = Inr (post2, t2)"
  shows "Original post2 = Join h path (Name f) \<and> File post2 = Name f
         \<and> ReadImage h (Join h path (Name f)) zeroImage = Inr (Image post2)
         \<and> t2 = ModTime f"
proof -
  from loop obtain post1 t1 where
    l1: "ReadImage_loop h path xs (zeroPost, 0) = Inr (post1, t1)"
    and l2: "ReadImage_loop h path (f # ys) (post1, t1) = Inr (post2, t2)"
    by (auto simp: loop_append split: sum.splits)
  from loop_no_image [OF before l1] have z: "Image post1 = zeroImage"
    by (simp add: zeroPost_def)
  from l2 loop_at_first_image [OF nometa first z, of path ys t1] obtain img where
    dec: "ReadImage h (Join h path (Name f)) zeroImage = Inr img"
    and l3: "ReadImage_loop h path ys
               (post1\<lparr>Original := Join h path (Name f), File := Name f, Image := img\<rparr>, ModTime f)
             = Inr (post2, t2)"
    by (auto split: sum.splits)
  from populated dec have nz: "\<not> Image_IsZero img" by blast
  then have "\<not> Image_IsZero
      (Image (post1\<lparr>Original := Join h path (Name f), File := Name f, Image := img\<rparr>))" by simp
  from loop_image_kept [OF this l3] dec show ?thesis by simp
qed

lemma loop_extras_ignored:
  assumes nometa: "\<not> HasExtension h (DiscoveryFileMeta h) (ImageExtensions h)"
      and before: "\<forall>x\<in>set xs. \<not> HasExtension h (Name x) (ImageExtensions h)"
      and first: "HasExtension h (Name f) (ImageExtensions h)"
      and populated: "\<forall>img. ReadImage h (Join h path (Name f)) zeroImage = Inr img
                        \<longrightarrow> \<not> Image_IsZero img"
  shows "ReadImage_loop h path (xs @ f # ys) (zeroPost, 0) =
         ReadImage_loop h path
           (xs @ f # filter (\<lambda>y. \<not> HasExtension h (Name y) (ImageExtensions h)) ys) (zeroPost, 0)"
proof (cases "ReadImage_loop h path xs (zeroPost, 0)")
  case (Inl err)
  then show ?thesis by (simp add: loop_append)
next
  case (Inr s)
  obtain post1 t1 where s: "s = (post1, t1)" by (cases s)
  from loop_no_image [OF before Inr [unfolded s]] have z: "Image post1 = zeroImage"
    by (simp add: zeroPost_def)
  show ?thesis
  proof (cases "ReadImage h (Join h path (Name f)) zeroImage")
    case dl: (Inl err)
    with Inr s loop_at_first_image [OF nometa first z, of path _ t1] show ?thesis
      by (simp add: loop_append)
  next
    case dr: (Inr img)
    with populated have "\<not> Image_IsZero img" by blast
    then have "\<not> Image_IsZero
      (Image (post1\<lparr>Original := Join h path (Name f), File := Name f, Image := img\<rparr>))" by simp
    from loop_skip_extras [OF nometa this, of path ys "ModTime f"]
         Inr s dr loop_at_first_image [OF nometa first z, of path _ t1]
    show ?thesis by (simp add: loop_append)
  qed
qed

lemma loop_no_image_value:
  assumes ni: "\<forall>fi\<in>set zs. \<not> HasExtension h (Name fi) (ImageExtensions h)"
      and dist: "distinct (map Name zs)"
      and meta: "if DiscoveryFileMeta h \<in> Name ` set zs
                 then ReadYAML h (Join h path (DiscoveryFileMeta h)) (Meta post) = Inr m
                 else m = Meta post"
  shows "ReadImage_loop h path zs (post, t) = Inr (post\<lparr>Meta := m\<rparr>, t)"
proof (cases "DiscoveryFileMeta h \<in> Name ` set zs")
  case True
  with meta have "ReadYAML h (Join h path (DiscoveryFileMeta h)) (Meta post) = Inr m" by simp
  from loop_read_ok [OF ni dist True this] show ?thesis .
next
  case False
  with meta have "m = Meta post" by simp
  with loop_no_image_ok [OF ni False, of path post t] show ?thesis by simp
qed

lemma loop_value:
  assumes nometa: "\<not> HasExtension h (DiscoveryFileMeta h) (ImageExtensions h)"
      and before: "\<forall>x\<in>set xs. \<not> HasExtension h (Name x) (ImageExtensions h)"
      and first: "HasExtension h (Name f) (ImageExtensions h)"
      and dec: "ReadImage h (Join h path (Name f)) zeroImage = Inr img"
      and nz: "\<not> Image_IsZero img"
      and dist: "distinct (map Name (xs @ f # ys))"
      and meta: "if DiscoveryFileMeta h \<in> Name ` set (xs @ f # ys)
                 then ReadYAML h (Join h path (DiscoveryFileMeta h)) zeroMeta = Inr m
                 else m = zeroMeta"
  shows "ReadImage_loop h path (xs @ f # ys) (zeroPost, 0) =
           Inr (\<lparr>Original = Join h path (Name f), File = Name f, Image = img, Meta = m\<rparr>,
                ModTime f)"
proof -
  let ?keep = "\<lambda>y. \<not> HasExtension h (Name y) (ImageExtensions h)"
  let ?ys = "filter ?keep ys"
  let ?M = "DiscoveryFileMeta h"
  from nometa first have fm: "Name f \<noteq> ?M" by auto
  have pop: "\<forall>i. ReadImage h (Join h path (Name f)) zeroImage = Inr i \<longrightarrow> \<not> Image_IsZero i"
    using dec nz by simp
  have inys: "(?M \<in> Name ` set ?ys) = (?M \<in> Name ` set ys)"
    using nometa by auto
  from dist have dx: "distinct (map Name xs)" and dy: "distinct (map Name ?ys)"
    and disj: "?M \<in> Name ` set xs \<Longrightarrow> ?M \<notin> Name ` set ys"
    by (auto simp: distinct_map_filter)
  have zm: "Meta zeroPost = zeroMeta" by (simp add: zeroPost_def)
  define m1 where "m1 = (if ?M \<in> Name ` set xs then m else zeroMeta)"
  have "if ?M \<in> Name ` set xs
        then ReadYAML h (Join h path ?M) (Meta zeroPost) = Inr m1 else m1 = Meta zeroPost"
    using meta zm by (auto simp: m1_def)
  from loop_no_image_value [OF before dx this]
  have l1: "ReadImage_loop h path xs (zeroPost, 0) = Inr (zeroPost\<lparr>Meta := m1\<rparr>, 0)" .
  let ?p1 = "zeroPost\<lparr>Meta := m1, Original := Join h path (Name f), File := Name f, Image := img\<rparr>"
  have "Image (zeroPost\<lparr>Meta := m1\<rparr>) = zeroImage" by (simp add: zeroPost_def)
  from loop_at_first_image [OF nometa first this, of path ?ys 0] dec
  have l2: "ReadImage_loop h path (f # ?ys) (zeroPost\<lparr>Meta := m1\<rparr>, 0) =
            ReadImage_loop h path ?ys (?p1, ModTime f)" by simp
  have ni: "\<forall>y\<in>set ?ys. \<not> HasExtension h (Name y) (ImageExtensions h)" by simp
  have "if ?M \<in> Name ` set ?ys
        then ReadYAML h (Join h path ?M) (Meta ?p1) = Inr m else m = Meta ?p1"
  proof (cases "?M \<in> Name ` set ys")
    case True
    with disj have "?M \<notin> Name ` set xs" by blast
    then have "m1 = zeroMeta" by (simp add: m1_def)
    moreover from True meta have "ReadYAML h (Join h path ?M) zeroMeta = Inr m"
      by (auto split: if_splits)
    ultimately show ?thesis using True inys by simp
  next
    case False
    then have "m = m1" using meta fm by (auto simp: m1_def split: if_splits)
    with False inys show ?thesis by simp
  qed
  from loop_no_image_value [OF ni dy this]
  have l3: "ReadImage_loop h path ?ys (?p1, ModTime f) = Inr (?p1\<lparr>Meta := m\<rparr>, ModTime f)" .
  have "ReadImage_loop h path (xs @ f # ?ys) (zeroPost, 0) = Inr (?p1\<lparr>Meta := m\<rparr>, ModTime f)"
    using l1 l2 l3 by (simp add: loop_append)
  with loop_extras_ignored [OF nometa before first pop, of ys] show ?thesis
    by (simp add: zeroPost_def)
qed

text \<open>
  C7. The listing of the folder is \<open>xs @ f # ys\<close>, no name in \<open>xs\<close> has a recognized
  image extension and the name of \<open>f\<close> has one; the name of the metadata file has no
  image extension, and a decode of \<open>f\<close> that succeeds leaves the image populated
  (not zero, as the spec has it). Then (1) a post that \<^verbatim>\<open>ReadImage\<close> produces has its
  \<^verbatim>\<open>Original\<close>, \<^verbatim>\<open>File\<close> and \<^verbatim>\<open>Image\<close> from \<open>f\<close>; (2) the result is the one for the
  listing without the recognized images after \<open>f\<close>: they are ignored, and no error is
  raised for them; (3) when \<open>f\<close> decodes, its path is not empty, the names are distinct
  and the metadata file is absent or read successfully, \<^verbatim>\<open>ReadImage\<close> succeeds with
  the post made from \<open>f\<close>.
\<close>

theorem ReadImage_first_image:
  assumes st: "Stat h path = Inr stat" and dir: "IsDir stat"
      and ls: "GetFileInfos h path = Inr (xs @ f # ys)"
      and nometa: "\<not> HasExtension h (DiscoveryFileMeta h) (ImageExtensions h)"
      and before: "\<forall>x\<in>set xs. \<not> HasExtension h (Name x) (ImageExtensions h)"
      and first: "HasExtension h (Name f) (ImageExtensions h)"
      and populated: "\<forall>img. ReadImage h (Join h path (Name f)) zeroImage = Inr img
                        \<longrightarrow> \<not> Image_IsZero img"
  shows "(\<forall>post. Engine_ReadImage h path = Inr post \<longrightarrow>
            Original post = Join h path (Name f) \<and> File post = Name f
            \<and> ReadImage h (Join h path (Name f)) zeroImage = Inr (Image post))
       \<and> Engine_ReadImage
           (h\<lparr>GetFileInfos := (GetFileInfos h)
                (path := Inr (xs @ f # filter (\<lambda>y. \<not> HasExtension h (Name y) (ImageExtensions h)) ys))\<rparr>)
           path
         = Engine_ReadImage h path
       \<and> (\<forall>img m. ReadImage h (Join h path (Name f)) zeroImage = Inr img
              \<and> Join h path (Name f) \<noteq> []
              \<and> distinct (map Name (xs @ f # ys))
              \<and> (if DiscoveryFileMeta h \<in> Name ` set (xs @ f # ys)
                 then ReadYAML h (Join h path (DiscoveryFileMeta h)) zeroMeta = Inr m
                 else m = zeroMeta) \<longrightarrow>
            Engine_ReadImage h path =
              Inr \<lparr>Original = Join h path (Name f), File = Name f, Image = img,
                   Meta = (if Posted m = 0 then m\<lparr>Posted := ModTime f\<rparr> else m)\<rparr>)"
proof -
  have one: "Original post = Join h path (Name f) \<and> File post = Name f
        \<and> ReadImage h (Join h path (Name f)) zeroImage = Inr (Image post)"
    if ok: "Engine_ReadImage h path = Inr post" for post
  proof -
    from ReadImage_success [OF ok ls] obtain post2 t2 where
      loop: "ReadImage_loop h path (xs @ f # ys) (zeroPost, 0) = Inr (post2, t2)"
      and fin: "ReadImage_finish path (post2, t2) = Inr post" by blast
    from loop_first_image [OF nometa before first populated loop] finish_success [OF fin]
    show ?thesis by simp
  qed
  let ?ls = "xs @ f # filter (\<lambda>y. \<not> HasExtension h (Name y) (ImageExtensions h)) ys"
  let ?h = "h\<lparr>GetFileInfos := (GetFileInfos h)(path := Inr ?ls)\<rparr>"
  have "Engine_ReadImage ?h path =
          (case ReadImage_loop ?h path ?ls (zeroPost, 0) of
             Inl err \<Rightarrow> Inl err | Inr s \<Rightarrow> ReadImage_finish path s)"
    by (rule ReadImage_unfold [of ?h path stat]) (use st dir in simp_all)
  moreover have "Engine_ReadImage h path =
          (case ReadImage_loop h path (xs @ f # ys) (zeroPost, 0) of
             Inl err \<Rightarrow> Inl err | Inr s \<Rightarrow> ReadImage_finish path s)"
    by (rule ReadImage_unfold [OF st dir ls]) simp
  ultimately have two: "Engine_ReadImage ?h path = Engine_ReadImage h path"
    using loop_extras_ignored [OF nometa before first populated, of ys]
    by (simp add: loop_host_listing)
  have three: "Engine_ReadImage h path =
              Inr \<lparr>Original = Join h path (Name f), File = Name f, Image = img,
                   Meta = (if Posted m = 0 then m\<lparr>Posted := ModTime f\<rparr> else m)\<rparr>"
    if a: "ReadImage h (Join h path (Name f)) zeroImage = Inr img
              \<and> Join h path (Name f) \<noteq> []
              \<and> distinct (map Name (xs @ f # ys))
              \<and> (if DiscoveryFileMeta h \<in> Name ` set (xs @ f # ys)
                 then ReadYAML h (Join h path (DiscoveryFileMeta h)) zeroMeta = Inr m
                 else m = zeroMeta)" for img m
  proof -
  from a have dec: "ReadImage h (Join h path (Name f)) zeroImage = Inr img"
    and ne: "Join h path (Name f) \<noteq> []"
    and dist: "distinct (map Name (xs @ f # ys))"
    and meta: "if DiscoveryFileMeta h \<in> Name ` set (xs @ f # ys)
                 then ReadYAML h (Join h path (DiscoveryFileMeta h)) zeroMeta = Inr m
                 else m = zeroMeta" by blast+
  from populated dec have nz: "\<not> Image_IsZero img" by blast
  have "Engine_ReadImage h path =
          (case ReadImage_loop h path (xs @ f # ys) (zeroPost, 0) of
             Inl err \<Rightarrow> Inl err | Inr s \<Rightarrow> ReadImage_finish path s)"
    by (rule ReadImage_unfold [OF st dir ls]) simp
  with loop_value [OF nometa before first dec nz dist meta] ne
  show ?thesis
    by (simp add: ReadImage_finish_def Time_IsZero_def)
  qed
  from one two three show ?thesis by blast
qed

theorem ReadImage_first_image_witness:
  "GetFileInfos demo ''images/a''
     = Inr ([demo_dir ''b'', demo_file ''meta.yml'' 20] @ demo_file ''x.jpg'' 30
            # [demo_file ''z.jpg'' 35])
   \<and> HasExtension demo ''z.jpg'' (ImageExtensions demo)
   \<and> ReadImage demo ''images/a/z.jpg'' zeroImage = Inl (Underlying ''image: unknown format'')
   \<and> Engine_ReadImage demo ''images/a'' = Inr demo_post_a
   \<and> Engine_ReadImage
        (demo\<lparr>GetFileInfos := (GetFileInfos demo)
           (''images/a'' := Inr ([demo_dir ''b'', demo_file ''meta.yml'' 20]
                                  @ demo_file ''x.jpg'' 30 # []))\<rparr>)
        ''images/a''
      = Engine_ReadImage demo ''images/a''"
proof -
  let ?xs = "[demo_dir ''b'', demo_file ''meta.yml'' 20]"
  let ?f = "demo_file ''x.jpg'' 30"
  let ?ys = "[demo_file ''z.jpg'' 35]"
  let ?img = "\<lparr>Format = ''jpeg'', Width = 640, Height = 480\<rparr>"
  let ?m = "zeroMeta\<lparr>Posted := 7, Title := ''Sunset''\<rparr>"
  have st: "Stat demo ''images/a'' = Inr (demo_dir ''a'')" by code_simp
  have dir: "IsDir (demo_dir ''a'')" by code_simp
  have ls: "GetFileInfos demo ''images/a'' = Inr (?xs @ ?f # ?ys)" by code_simp
  have nometa: "\<not> HasExtension demo (DiscoveryFileMeta demo) (ImageExtensions demo)"
    by code_simp
  have before: "\<forall>x\<in>set ?xs. \<not> HasExtension demo (Name x) (ImageExtensions demo)"
    by code_simp
  have first: "HasExtension demo (Name ?f) (ImageExtensions demo)" by code_simp
  have dec: "ReadImage demo (Join demo ''images/a'' (Name ?f)) zeroImage = Inr ?img"
    by code_simp
  have populated: "\<forall>img. ReadImage demo (Join demo ''images/a'' (Name ?f)) zeroImage = Inr img
                     \<longrightarrow> \<not> Image_IsZero img"
    unfolding dec by (simp add: Image_IsZero_def zeroImage_def)
  note T = ReadImage_first_image [OF st dir ls nometa before first populated]
  have flt: "filter (\<lambda>y. \<not> HasExtension demo (Name y) (ImageExtensions demo)) ?ys = []"
    by code_simp
  from T [THEN conjunct2, THEN conjunct1] have two: "Engine_ReadImage
        (demo\<lparr>GetFileInfos := (GetFileInfos demo) (''images/a'' := Inr (?xs @ ?f # []))\<rparr>)
        ''images/a''
      = Engine_ReadImage demo ''images/a''"
    unfolding flt .
  have pre: "ReadImage demo (Join demo ''images/a'' (Name ?f)) zeroImage = Inr ?img
              \<and> Join demo ''images/a'' (Name ?f) \<noteq> []
              \<and> distinct (map Name (?xs @ ?f # ?ys))
              \<and> (if DiscoveryFileMeta demo \<in> Name ` set (?xs @ ?f # ?ys)
                 then ReadYAML demo (Join demo ''images/a'' (DiscoveryFileMeta demo)) zeroMeta = Inr ?m
                 else ?m = zeroMeta)"
    by code_simp
  have val: "\<lparr>Original = Join demo ''images/a'' (Name ?f), File = Name ?f, Image = ?img,
              Meta = (if Posted ?m = 0 then ?m\<lparr>Posted := ModTime ?f\<rparr> else ?m)\<rparr> = demo_post_a"
    by code_simp
  from T [THEN conjunct2, THEN conjunct2, rule_format, OF pre]
  have three: "Engine_ReadImage demo ''images/a'' = Inr demo_post_a"
    unfolding val .
  have z1: "HasExtension demo ''z.jpg'' (ImageExtensions demo)" by code_simp
  have z2: "ReadImage demo ''images/a/z.jpg'' zeroImage = Inl (Underlying ''image: unknown format'')"
    by code_simp
  from ls z1 z2 three two show ?thesis by (intro conjI)
qed

text \<open>Entries other than the metadata file neither read nor change the metadata.\<close>

lemma loop_meta_independent:
  assumes "DiscoveryFileMeta h \<notin> Name ` set fs"
  shows "ReadImage_loop h path fs (post\<lparr>Meta := mm\<rparr>, t) =
           map_sum id (\<lambda>(p, t1). (p\<lparr>Meta := mm\<rparr>, t1)) (ReadImage_loop h path fs (post, t))"
  using assms
proof (induction fs arbitrary: post t)
  case Nil
  show ?case by simp
next
  case (Cons x fs)
  from Cons.prems have ne: "Name x \<noteq> DiscoveryFileMeta h"
    and rest: "DiscoveryFileMeta h \<notin> Name ` set fs" by auto
  show ?case
  proof (cases "HasExtension h (Name x) (ImageExtensions h) \<and> Image_IsZero (Image post)")
    case True
    show ?thesis
    proof (cases "ReadImage h (Join h path (Name x)) (Image post)")
      case (Inl err)
      with True ne show ?thesis by (simp add: Let_def)
    next
      case (Inr img)
      have swap: "post\<lparr>Meta := mm, Original := Join h path (Name x), File := Name x, Image := img\<rparr>
          = post\<lparr>Original := Join h path (Name x), File := Name x, Image := img, Meta := mm\<rparr>"
        by (cases post) simp
      from Cons.IH [OF rest,
          of "post\<lparr>Original := Join h path (Name x), File := Name x, Image := img\<rparr>" "ModTime x"]
           True ne Inr
      show ?thesis by (simp add: Let_def swap)
    qed
  next
    case False
    with Cons.IH [OF rest, of post t] ne show ?thesis by (auto simp: Let_def)
  qed
qed

text \<open>
  The loop over a listing that holds the metadata file once, wherever it stands, in
  terms of the loop over the other entries: up to which error is returned.
\<close>

lemma loop_meta_anywhere:
  assumes m: "Name m = DiscoveryFileMeta h"
      and others: "\<forall>x\<in>set (xs @ ys). Name x \<noteq> DiscoveryFileMeta h"
  shows "map_sum (\<lambda>e. ()) id (ReadImage_loop h path (xs @ m # ys) (post, t)) =
           (case ReadYAML h (Join h path (DiscoveryFileMeta h)) (Meta post) of
              Inl err \<Rightarrow> Inl ()
            | Inr mm \<Rightarrow>
                map_sum (\<lambda>e. ()) (\<lambda>(p, t1). (p\<lparr>Meta := mm\<rparr>, t1))
                  (ReadImage_loop h path (xs @ ys) (post, t)))"
proof -
  from others have nx: "DiscoveryFileMeta h \<notin> Name ` set xs"
    and ny: "DiscoveryFileMeta h \<notin> Name ` set ys" by auto
  show ?thesis
  proof (cases "ReadImage_loop h path xs (post, t)")
    case (Inl err)
    then show ?thesis by (simp add: loop_append split: sum.splits)
  next
    case (Inr s)
    obtain p1 t1 where s: "s = (p1, t1)" by (cases s)
    from loop_meta_absent [OF nx Inr [unfolded s]] have mp: "Meta p1 = Meta post" .
    show ?thesis
    proof (cases "ReadYAML h (Join h path (DiscoveryFileMeta h)) (Meta post)")
      case yl: (Inl err)
      with Inr s mp m show ?thesis by (simp add: loop_append Let_def)
    next
      case yr: (Inr mm)
      with Inr s mp m loop_meta_independent [OF ny, where path = path and post = p1 and mm = mm and t = t1]
      show ?thesis
        by (cases "ReadImage_loop h path ys (p1, t1)") (simp_all add: loop_append Let_def)
    qed
  qed
qed

text \<open>
  C10. Two listings of a folder that hold the same entries in the same order except
  for the place of the metadata file (which occurs once): \<^verbatim>\<open>ReadImage\<close> produces the
  same post for both, or fails for both.
\<close>

theorem ReadImage_meta_position:
  assumes m: "Name m = DiscoveryFileMeta h"
      and others: "\<forall>x\<in>set (xs @ ys). Name x \<noteq> DiscoveryFileMeta h"
      and same: "xs @ ys = xs' @ ys'"
  shows "(\<exists>post.
            Engine_ReadImage (h\<lparr>GetFileInfos := (GetFileInfos h)(path := Inr (xs @ m # ys))\<rparr>) path
              = Inr post
          \<and> Engine_ReadImage (h\<lparr>GetFileInfos := (GetFileInfos h)(path := Inr (xs' @ m # ys'))\<rparr>) path
              = Inr post)
       \<or> (\<exists>e1 e2.
            Engine_ReadImage (h\<lparr>GetFileInfos := (GetFileInfos h)(path := Inr (xs @ m # ys))\<rparr>) path
              = Inl e1
          \<and> Engine_ReadImage (h\<lparr>GetFileInfos := (GetFileInfos h)(path := Inr (xs' @ m # ys'))\<rparr>) path
              = Inl e2)"
proof -
  let ?h1 = "h\<lparr>GetFileInfos := (GetFileInfos h)(path := Inr (xs @ m # ys))\<rparr>"
  let ?h2 = "h\<lparr>GetFileInfos := (GetFileInfos h)(path := Inr (xs' @ m # ys'))\<rparr>"
  let ?l1 = "ReadImage_loop h path (xs @ m # ys) (zeroPost, 0)"
  let ?l2 = "ReadImage_loop h path (xs' @ m # ys') (zeroPost, 0)"
  from others same have others': "\<forall>x\<in>set (xs' @ ys'). Name x \<noteq> DiscoveryFileMeta h" by simp
  have loops: "map_sum (\<lambda>e. ()) id ?l1 = map_sum (\<lambda>e. ()) id ?l2"
    unfolding loop_meta_anywhere [OF m others] loop_meta_anywhere [OF m others'] same ..
  have R1: "Engine_ReadImage ?h1 path =
      (case Stat h path of
         Inl err \<Rightarrow> Inl err
       | Inr stat \<Rightarrow>
           if \<not> IsDir stat then Inl (Exception ''not a directory'' path)
           else (case ?l1 of Inl err \<Rightarrow> Inl err | Inr s \<Rightarrow> ReadImage_finish path s))"
    by (simp add: Engine_ReadImage_def loop_host_listing split: sum.splits)
  have R2: "Engine_ReadImage ?h2 path =
      (case Stat h path of
         Inl err \<Rightarrow> Inl err
       | Inr stat \<Rightarrow>
           if \<not> IsDir stat then Inl (Exception ''not a directory'' path)
           else (case ?l2 of Inl err \<Rightarrow> Inl err | Inr s \<Rightarrow> ReadImage_finish path s))"
    by (simp add: Engine_ReadImage_def loop_host_listing split: sum.splits)
  have "map_sum (\<lambda>e. ()) id (Engine_ReadImage ?h1 path)
        = map_sum (\<lambda>e. ()) id (Engine_ReadImage ?h2 path)"
  proof (cases ?l1)
    case l1: (Inl e1)
    with loops obtain e2 where l2: "?l2 = Inl e2" by (cases ?l2) auto
    show ?thesis unfolding R1 R2 l1 l2 by (simp split: sum.splits)
  next
    case l1: (Inr s)
    with loops have l2: "?l2 = Inr s" by (cases ?l2) auto
    show ?thesis unfolding R1 R2 l1 l2 by simp
  qed
  then show ?thesis
    by (cases "Engine_ReadImage ?h1 path"; cases "Engine_ReadImage ?h2 path") auto
qed

theorem ReadImage_meta_position_witness:
  "Engine_ReadImage
     (demo\<lparr>GetFileInfos := (GetFileInfos demo)
        (''images/a'' := Inr ([demo_dir ''b''] @ demo_file ''meta.yml'' 20
                               # [demo_file ''x.jpg'' 30, demo_file ''z.jpg'' 35]))\<rparr>)
     ''images/a'' = Inr demo_post_a
   \<and> Engine_ReadImage
     (demo\<lparr>GetFileInfos := (GetFileInfos demo)
        (''images/a'' := Inr ([demo_dir ''b'', demo_file ''x.jpg'' 30] @ demo_file ''meta.yml'' 20
                               # [demo_file ''z.jpg'' 35]))\<rparr>)
     ''images/a'' = Inr demo_post_a"
proof -
  let ?m = "demo_file ''meta.yml'' 20"
  let ?r1 = "Engine_ReadImage
     (demo\<lparr>GetFileInfos := (GetFileInfos demo)
        (''images/a'' := Inr ([demo_dir ''b''] @ ?m
                               # [demo_file ''x.jpg'' 30, demo_file ''z.jpg'' 35]))\<rparr>)
     ''images/a''"
  let ?r2 = "Engine_ReadImage
     (demo\<lparr>GetFileInfos := (GetFileInfos demo)
        (''images/a'' := Inr ([demo_dir ''b'', demo_file ''x.jpg'' 30] @ ?m
                               # [demo_file ''z.jpg'' 35]))\<rparr>)
     ''images/a''"
  have m: "Name ?m = DiscoveryFileMeta demo" by code_simp
  have others: "\<forall>x\<in>set ([demo_dir ''b''] @ [demo_file ''x.jpg'' 30, demo_file ''z.jpg'' 35]).
                  Name x \<noteq> DiscoveryFileMeta demo" by code_simp
  have same: "[demo_dir ''b''] @ [demo_file ''x.jpg'' 30, demo_file ''z.jpg'' 35]
              = [demo_dir ''b'', demo_file ''x.jpg'' 30] @ [demo_file ''z.jpg'' 35]" by simp
  have r1: "?r1 = Inr demo_post_a" by code_simp
  from ReadImage_meta_position [OF m others same, of "''images/a''"]
  have "(\<exists>post. ?r1 = Inr post \<and> ?r2 = Inr post) \<or> (\<exists>e1 e2. ?r1 = Inl e1 \<and> ?r2 = Inl e2)" .
  with r1 have "?r2 = Inr demo_post_a" by auto
  with r1 show ?thesis by (intro conjI)
qed

section \<open>Properties of DiscoverPosts\<close>

lemma visit_append:
  "visit f (xs @ ys) s =
     (case visit f xs s of Inl err \<Rightarrow> Inl err | Inr s1 \<Rightarrow> visit f ys s1)"
proof (induction xs arbitrary: s)
  case Nil
  show ?case by simp
next
  case (Cons x xs)
  obtain p n where x: "x = (p, n)" by (cases x)
  show ?case unfolding x by (simp add: Cons.IH split: sum.splits)
qed

lemma walk_visit:
  "walk J f path node s = visit f (entries J path node) s"
  "walk_names J f path cs s = visit f (entries_names J path cs) s"
proof (induction J f path node s and J f path cs s rule: walk_walk_names.induct)
  case (1 J walkFn path n t cs s)
  then show ?case by (simp split: sum.splits)
next
  case (2 J walkFn path n t s)
  show ?case by (simp split: sum.splits)
next
  case (3 J walkFn path n e s)
  show ?case by (simp split: sum.splits)
next
  case (4 J walkFn path s)
  show ?case by simp
next
  case (5 J walkFn path c cs s)
  then show ?case by (simp add: visit_append split: sum.splits)
qed

lemma folders_Cons:
  "folders root ((p, n) # es) =
     (if IsDir (node_info n) \<and> p \<noteq> root then p # folders root es else folders root es)"
  by (simp add: folders_def)

lemma visit_DiscoverPosts:
  "(visit (DiscoverPosts_walkFn h root) es s = Inr s1) =
     (list_all (\<lambda>(p, n). node_err n = None) es
      \<and> map Inr s1 = map Inr s @ map (Engine_ReadImage h) (folders root es))"
proof (induction es arbitrary: s)
  case Nil
  show ?case by (auto simp: folders_def inj_map_eq_map)
next
  case (Cons x es)
  obtain p n where x: "x = (p, n)" by (cases x)
  show ?case
  proof (cases "node_err n")
    case (Some e)
    then show ?thesis unfolding x by (simp add: DiscoverPosts_walkFn_def)
  next
    case None
    show ?thesis
    proof (cases "IsDir (node_info n) \<and> p \<noteq> root")
      case False
      with None have "DiscoverPosts_walkFn h root p (node_info n) (node_err n) s = Inr s"
        by (auto simp: DiscoverPosts_walkFn_def)
      moreover from False have "folders root ((p, n) # es) = folders root es"
        by (auto simp: folders_Cons)
      ultimately show ?thesis using None Cons.IH [of s] unfolding x
        by simp
    next
      case True
      show ?thesis
      proof (cases "Engine_ReadImage h p")
        case (Inl err)
        with True None have "DiscoverPosts_walkFn h root p (node_info n) (node_err n) s = Inl err"
          by (auto simp: DiscoverPosts_walkFn_def)
        moreover have "map Inr s1 \<noteq> map Inr s @ Inl err # zs" for zs :: "(error + Post) list"
        proof
          assume "map Inr s1 = map Inr s @ Inl err # zs"
          then have "Inl err \<in> set (map Inr s1)" by simp
          then show False by auto
        qed
        ultimately show ?thesis using True Inl unfolding x by (simp add: folders_Cons)
      next
        case (Inr post)
        with True None
        have "DiscoverPosts_walkFn h root p (node_info n) (node_err n) s = Inr (s @ [post])"
          by (auto simp: DiscoverPosts_walkFn_def)
        with True None Inr Cons.IH [of "s @ [post]"] show ?thesis unfolding x
          by (simp add: folders_Cons)
      qed
    qed
  qed
qed

lemma entries_root: "(path, node) \<in> set (entries J path node)"
  by (cases node) simp_all

lemma entries_children:
  "(p, DirEntry n t cs) \<in> set (entries J path node) \<Longrightarrow> c \<in> set cs
     \<Longrightarrow> (J p (node_name c), c) \<in> set (entries J path node)"
  "(p, DirEntry n t cs) \<in> set (entries_names J path ns) \<Longrightarrow> c \<in> set cs
     \<Longrightarrow> (J p (node_name c), c) \<in> set (entries_names J path ns)"
proof (induction J path node and J path ns rule: entries_entries_names.induct)
  case (1 J path n' t' cs')
  show ?case
  proof (cases "(p, DirEntry n t cs) = (path, DirEntry n' t' cs')")
    case True
    with "1.prems"(2) have "c \<in> set cs'" and pp: "p = path" by auto
    then have "(J path (node_name c), c) \<in> set (entries_names J path cs')"
    proof (induction cs')
      case Nil
      then show ?case by simp
    next
      case (Cons a cs')
      then show ?case using entries_root [of "J path (node_name a)" a J] by auto
    qed
    with pp show ?thesis by simp
  next
    case False
    with "1.prems" "1.IH" show ?thesis by auto
  qed
next
  case (2 J path n t)
  then show ?case by simp
next
  case (3 J path n e)
  then show ?case by simp
next
  case (4 J path)
  then show ?case by simp
next
  case (5 J path c' cs')
  then show ?case by auto
qed

lemma DiscoverPosts_success_iff:
  "(Engine_DiscoverPosts h e = Inr posts) =
      (readable h (ImagesOrDefault (Config e))
       \<and> map Inr posts
           = map (Engine_ReadImage h) (post_folders h (ImagesOrDefault (Config e))))"
proof -
  let ?root = "ImagesOrDefault (Config e)"
  have "Engine_DiscoverPosts h e =
          visit (DiscoverPosts_walkFn h ?root) (entries (Join h) ?root (Tree h ?root)) []"
    by (simp add: Engine_DiscoverPosts_def Walk_def walk_visit Let_def split: sum.splits)
  then show ?thesis
    by (simp add: visit_DiscoverPosts readable_def post_folders_def)
qed

text \<open>Discovery returns posts only when every folder was read: there is no partial result.\<close>

lemma DiscoverPosts_fails:
  assumes "\<not> readable h (ImagesOrDefault (Config e))
           \<or> (\<exists>p\<in>set (post_folders h (ImagesOrDefault (Config e))).
                 \<exists>err. Engine_ReadImage h p = Inl err)"
  shows "\<exists>err. Engine_DiscoverPosts h e = Inl err"
proof (cases "Engine_DiscoverPosts h e")
  case (Inl err)
  then show ?thesis by blast
next
  case (Inr posts)
  then have r: "readable h (ImagesOrDefault (Config e))"
    and m: "map Inr posts
           = map (Engine_ReadImage h) (post_folders h (ImagesOrDefault (Config e)))"
    by (simp_all add: DiscoverPosts_success_iff)
  from assms r obtain p err where
    p: "p \<in> set (post_folders h (ImagesOrDefault (Config e)))"
    and f: "Engine_ReadImage h p = Inl err" by blast
  from p have "Engine_ReadImage h p
      \<in> set (map (Engine_ReadImage h) (post_folders h (ImagesOrDefault (Config e))))" by simp
  with m f have "Inl err \<in> set (map Inr posts)" by simp
  then show ?thesis by auto
qed

text \<open>
  C1 (as amended). \<^verbatim>\<open>DiscoverPosts\<close> walks the whole tree under the images root. The
  entries the walk visits are the root and, with every directory it visits, each of
  the directory's children, so directories at every depth. \<^verbatim>\<open>DiscoverPosts\<close> succeeds
  exactly when no entry is unreadable and \<^verbatim>\<open>ReadImage\<close> succeeds on every directory
  below the root, at any depth; its result then holds exactly one post for each of
  these directories, in the order of the walk.
\<close>

theorem DiscoverPosts_every_directory:
  "((Engine_DiscoverPosts h e = Inr posts) =
      (readable h (ImagesOrDefault (Config e))
       \<and> map Inr posts
           = map (Engine_ReadImage h) (post_folders h (ImagesOrDefault (Config e)))))
   \<and> (ImagesOrDefault (Config e), Tree h (ImagesOrDefault (Config e)))
        \<in> set (entries (Join h) (ImagesOrDefault (Config e))
                  (Tree h (ImagesOrDefault (Config e))))
   \<and> (\<forall>p n t cs. \<forall>c\<in>set cs.
         (p, DirEntry n t cs)
           \<in> set (entries (Join h) (ImagesOrDefault (Config e))
                     (Tree h (ImagesOrDefault (Config e))))
         \<longrightarrow> (Join h p (node_name c), c)
               \<in> set (entries (Join h) (ImagesOrDefault (Config e))
                         (Tree h (ImagesOrDefault (Config e)))))"
proof (intro conjI)
  let ?root = "ImagesOrDefault (Config e)"
  show "(Engine_DiscoverPosts h e = Inr posts) =
      (readable h ?root \<and> map Inr posts = map (Engine_ReadImage h) (post_folders h ?root))"
    by (rule DiscoverPosts_success_iff)
  show "(?root, Tree h ?root) \<in> set (entries (Join h) ?root (Tree h ?root))"
    by (rule entries_root)
  show "\<forall>p n t cs. \<forall>c\<in>set cs.
         (p, DirEntry n t cs) \<in> set (entries (Join h) ?root (Tree h ?root))
         \<longrightarrow> (Join h p (node_name c), c) \<in> set (entries (Join h) ?root (Tree h ?root))"
    using entries_children(1) by blast
qed

theorem DiscoverPosts_every_directory_witness:
  "readable demo ''images''
   \<and> post_folders demo ''images'' = [''images/a'', ''images/a/b'']
   \<and> (''images/a/b'', DirEntry ''b'' 3 [FileEntry ''y.png'' 40])
        \<in> set (entries (Join demo) ''images'' (Tree demo ''images''))
   \<and> Engine_DiscoverPosts demo demo_Engine = Inr [demo_post_a, demo_post_b]"
proof -
  have root: "ImagesOrDefault (Config demo_Engine) = ''images''" by code_simp
  note T = DiscoverPosts_every_directory [of demo demo_Engine "[demo_post_a, demo_post_b]",
             unfolded root]
  have r: "readable demo ''images''" by code_simp
  have f: "post_folders demo ''images'' = [''images/a'', ''images/a/b'']" by code_simp
  have a: "Engine_ReadImage demo ''images/a'' = Inr demo_post_a" by code_simp
  have b: "Engine_ReadImage demo ''images/a/b'' = Inr demo_post_b" by code_simp
  from T [THEN conjunct1] r f a b
  have posts: "Engine_DiscoverPosts demo demo_Engine = Inr [demo_post_a, demo_post_b]"
    by simp
  have tree: "Tree demo ''images'' = demo_Tree" by (simp add: demo_def)
  have ea: "(''images/a'', DirEntry ''a'' 2
               [DirEntry ''b'' 3 [FileEntry ''y.png'' 40], FileEntry ''meta.yml'' 20,
                FileEntry ''x.jpg'' 30, FileEntry ''z.jpg'' 35])
            \<in> set (entries (Join demo) ''images'' (Tree demo ''images''))"
    by code_simp
  have ja: "Join demo ''images/a'' (node_name (DirEntry ''b'' 3 [FileEntry ''y.png'' 40]))
            = ''images/a/b''" by code_simp
  from T [THEN conjunct2, THEN conjunct2, rule_format,
          of "DirEntry ''b'' 3 [FileEntry ''y.png'' 40]" _ "''images/a''" "''a''" 2, OF _ ea]
  have eb: "(''images/a/b'', DirEntry ''b'' 3 [FileEntry ''y.png'' 40])
        \<in> set (entries (Join demo) ''images'' (Tree demo ''images''))"
    unfolding ja by simp
  from r f eb posts show ?thesis by (intro conjI)
qed

text \<open>
  C1 as stated fails: the images root of the concrete host has one immediate
  subdirectory, \<^verbatim>\<open>a\<close>, which holds the directory \<^verbatim>\<open>b\<close>; \<^verbatim>\<open>DiscoverPosts\<close> returns two
  posts, the second one read from the nested directory \<^verbatim>\<open>images/a/b\<close>.
\<close>

theorem DiscoverPosts_nested_counterexample:
  "Tree demo (ImagesOrDefault (Config demo_Engine))
     = DirEntry ''images'' 1
         [DirEntry ''a'' 2
            [DirEntry ''b'' 3 [FileEntry ''y.png'' 40],
             FileEntry ''meta.yml'' 20, FileEntry ''x.jpg'' 30, FileEntry ''z.jpg'' 35]]
   \<and> Engine_DiscoverPosts demo demo_Engine = Inr [demo_post_a, demo_post_b]
   \<and> Engine_ReadImage demo ''images/a/b'' = Inr demo_post_b
   \<and> Original demo_post_b = ''images/a/b/y.png''"
  by code_simp

section \<open>Properties of CreateOutputPath and CompileTemplate\<close>

text \<open>
  C2 (as amended). \<^verbatim>\<open>CreateOutputPath\<close> creates the output directory when the stat of
  the output path fails, and then returns the wrapped error of the creation, if any;
  when the stat succeeds it returns no error and creates nothing, whether or not what
  it found is a directory.
\<close>

theorem CreateOutputPath_creates_when_absent:
  "(\<forall>err. Stat h (OutputOrDefault (Config e)) = Inl err
           \<and> MakeDir h (OutputOrDefault (Config e)) = None \<longrightarrow>
       Engine_CreateOutputPath h e = (None, [MadeDir (OutputOrDefault (Config e))]))
   \<and> (\<forall>err err1. Stat h (OutputOrDefault (Config e)) = Inl err
           \<and> MakeDir h (OutputOrDefault (Config e)) = Some err1 \<longrightarrow>
       Engine_CreateOutputPath h e = (Some (Wrapped err1), []))
   \<and> (\<forall>info. Stat h (OutputOrDefault (Config e)) = Inr info \<longrightarrow>
       Engine_CreateOutputPath h e = (None, []))"
  by (simp add: Engine_CreateOutputPath_def exception_New_def)

theorem CreateOutputPath_creates_when_absent_witness:
  "Engine_CreateOutputPath demo demo_Engine = (None, [MadeDir ''out''])
   \<and> Engine_CreateOutputPath (demo\<lparr>MakeDir := \<lambda>p. Some (Underlying ''permission denied'')\<rparr>)
        demo_Engine
      = (Some (Wrapped (Underlying ''permission denied'')), [])
   \<and> Engine_CreateOutputPath demo \<lparr>Config = demo_Config\<lparr>OutputOrDefault := ''images''\<rparr>\<rparr>
      = (None, [])"
proof -
  let ?h2 = "demo\<lparr>MakeDir := \<lambda>p. Some (Underlying ''permission denied'')\<rparr>"
  let ?e3 = "\<lparr>Config = demo_Config\<lparr>OutputOrDefault := ''images''\<rparr>\<rparr>"
  have out: "OutputOrDefault (Config demo_Engine) = ''out''" by code_simp
  have out3: "OutputOrDefault (Config ?e3) = ''images''" by code_simp
  have s1: "Stat demo ''out'' = Inl (Underlying ''no such file or directory'')
            \<and> MakeDir demo ''out'' = None" by code_simp
  have s2: "Stat ?h2 ''out'' = Inl (Underlying ''no such file or directory'')
            \<and> MakeDir ?h2 ''out'' = Some (Underlying ''permission denied'')"
    by (simp add: demo_defs)
  have s3: "Stat demo ''images'' = Inr (demo_dir ''images'')" by code_simp
  from CreateOutputPath_creates_when_absent [of demo demo_Engine, unfolded out,
         THEN conjunct1, rule_format, OF s1]
       CreateOutputPath_creates_when_absent [of ?h2 demo_Engine, unfolded out,
         THEN conjunct2, THEN conjunct1, rule_format, OF s2]
       CreateOutputPath_creates_when_absent [of demo ?e3, unfolded out3,
         THEN conjunct2, THEN conjunct2, rule_format, OF s3]
  show ?thesis by (intro conjI)
qed

text \<open>
  C2 as stated fails: an output path that exists as a regular file is accepted.
\<close>

theorem CreateOutputPath_not_a_directory_counterexample:
  "Stat demo ''images/a/x.jpg'' = Inr (demo_file ''x.jpg'' 30)
   \<and> \<not> IsDir (demo_file ''x.jpg'' 30)
   \<and> Engine_CreateOutputPath demo \<lparr>Config = demo_Config\<lparr>OutputOrDefault := ''images/a/x.jpg''\<rparr>\<rparr>
      = (None, [])"
  by code_simp

lemma parse_all_step_Inl:
  "foldl (\<lambda>r src. case r of
                     Inl err \<Rightarrow> Inl err
                   | Inr tmp \<Rightarrow>
                       (case Parse h tmp src of
                          Inl err \<Rightarrow> Inl (Wrapped err)
                        | Inr tmp1 \<Rightarrow> Inr tmp1))
     (Inl e) srcs = Inl e"
  by (induction srcs) simp_all

lemma CompileTemplate_loop_foldl:
  "CompileTemplate_loop h tmp srcs =
     foldl (\<lambda>r src. case r of
                       Inl err \<Rightarrow> Inl err
                     | Inr tmp \<Rightarrow>
                         (case Parse h tmp src of
                            Inl err \<Rightarrow> Inl (Wrapped err)
                          | Inr tmp1 \<Rightarrow> Inr tmp1))
       (Inr tmp) srcs"
proof (induction srcs arbitrary: tmp)
  case Nil
  show ?case by simp
next
  case (Cons src srcs)
  show ?case by (simp add: Cons.IH parse_all_step_Inl split: sum.splits)
qed

lemma CompileTemplate_loop_append:
  "CompileTemplate_loop h tmp (xs @ ys) =
     (case CompileTemplate_loop h tmp xs of
        Inl err \<Rightarrow> Inl err
      | Inr tmp1 \<Rightarrow> CompileTemplate_loop h tmp1 ys)"
  by (induction xs arbitrary: tmp) (simp_all split: sum.splits)

lemma CompileTemplate_loop_ok:
  assumes "\<forall>tmp. \<forall>src\<in>set srcs. \<exists>tmp1. Parse h tmp src = Inr tmp1"
  shows "\<exists>final. CompileTemplate_loop h tmp srcs = Inr final"
  using assms
proof (induction srcs arbitrary: tmp)
  case Nil
  show ?case by simp
next
  case (Cons src srcs)
  from Cons.prems obtain tmp1 where "Parse h tmp src = Inr tmp1" by auto
  moreover from Cons.prems have "\<forall>tmp. \<forall>src\<in>set srcs. \<exists>tmp1. Parse h tmp src = Inr tmp1" by simp
  ultimately show ?case using Cons.IH [of tmp1] by simp
qed

lemma CompileTemplate_loop_error:
  assumes "CompileTemplate_loop h tmp srcs = Inl e"
  shows "\<exists>tmp1 err. \<exists>src\<in>set srcs. Parse h tmp1 src = Inl err \<and> e = Wrapped err"
  using assms
proof (induction srcs arbitrary: tmp)
  case Nil
  then show ?case by simp
next
  case (Cons src srcs)
  show ?case
  proof (cases "Parse h tmp src")
    case (Inl err)
    with Cons.prems have "e = Wrapped err" by simp
    with Inl show ?thesis by auto
  next
    case (Inr tmp1)
    with Cons.prems have "CompileTemplate_loop h tmp1 srcs = Inl e" by simp
    from Cons.IH [OF this] show ?thesis by auto
  qed
qed

lemma CompileTemplate_unfold:
  assumes "ReadFile h templatePath = Inr contents"
  shows "Engine_CompileTemplate h templatePath partials =
           CompileTemplate_loop h [] (partials @ [contents])"
  using assms
  by (simp add: Engine_CompileTemplate_def CompileTemplate_loop_append split: sum.splits)

text \<open>
  C3 (as amended). \<^verbatim>\<open>CompileTemplate\<close> fails with the wrapped read error when the main
  template cannot be read. Otherwise it parses the partials in the order given and
  then the main template, last, into one namespace that starts empty, up to the first
  source that does not parse. It succeeds whenever each of these sources parses and
  fails only with the wrapped error of a \<^verbatim>\<open>Parse\<close> call (or of the read): it has no
  check of its own against a block that is defined again.
\<close>

theorem CompileTemplate_order:
  "(\<forall>err. ReadFile h templatePath = Inl err \<longrightarrow>
       Engine_CompileTemplate h templatePath partials = Inl (Wrapped err))
   \<and> (\<forall>contents. ReadFile h templatePath = Inr contents \<longrightarrow>
       Engine_CompileTemplate h templatePath partials = parse_all h (partials @ [contents])
       \<and> ((\<forall>tmp. \<forall>src\<in>set (partials @ [contents]). \<exists>tmp1. Parse h tmp src = Inr tmp1) \<longrightarrow>
            (\<exists>final. Engine_CompileTemplate h templatePath partials = Inr final))
       \<and> (\<forall>e. Engine_CompileTemplate h templatePath partials = Inl e \<longrightarrow>
            (\<exists>tmp err. \<exists>src\<in>set (partials @ [contents]).
               Parse h tmp src = Inl err \<and> e = Wrapped err)))"
proof (intro conjI allI impI)
  fix err
  assume "ReadFile h templatePath = Inl err"
  then show "Engine_CompileTemplate h templatePath partials = Inl (Wrapped err)"
    by (simp add: Engine_CompileTemplate_def)
next
  fix contents
  assume r: "ReadFile h templatePath = Inr contents"
  note U = CompileTemplate_unfold [OF r, of partials]
  show "Engine_CompileTemplate h templatePath partials = parse_all h (partials @ [contents])"
    unfolding U parse_all_def by (rule CompileTemplate_loop_foldl)
  show "\<exists>final. Engine_CompileTemplate h templatePath partials = Inr final"
    if "\<forall>tmp. \<forall>src\<in>set (partials @ [contents]). \<exists>tmp1. Parse h tmp src = Inr tmp1"
    unfolding U using that by (rule CompileTemplate_loop_ok)
  show "\<exists>tmp err. \<exists>src\<in>set (partials @ [contents]). Parse h tmp src = Inl err \<and> e = Wrapped err"
    if "Engine_CompileTemplate h templatePath partials = Inl e" for e
    using that unfolding U by (rule CompileTemplate_loop_error)
qed

theorem CompileTemplate_order_witness:
  "Engine_CompileTemplate demo ''layout/missing.html'' [''{{define `head`}}A{{end}}'']
     = Inl (Wrapped (Underlying ''no such file or directory''))
   \<and> Engine_CompileTemplate demo ''layout/index.html'' [''{{define `head`}}A{{end}}'']
     = Inr [(''head'', ''A''), ([], ''{{template `head`}}index'')]
   \<and> Engine_CompileTemplate demo ''layout/index.html'' [''{{define `head`''] 
     = Inl (Wrapped (Underlying ''template: unexpected token''))"
proof -
  let ?A = "''{{define `head`}}A{{end}}''"
  let ?I = "''{{template `head`}}index''"
  have r1: "ReadFile demo ''layout/missing.html'' = Inl (Underlying ''no such file or directory'')"
    by code_simp
  have r2: "ReadFile demo ''layout/index.html'' = Inr ?I" by code_simp
  have p2: "parse_all demo ([?A] @ [?I]) = Inr [(''head'', ''A''), ([], ?I)]" by code_simp
  have p3: "parse_all demo ([''{{define `head`''] @ [?I])
            = Inl (Wrapped (Underlying ''template: unexpected token''))" by code_simp
  from CompileTemplate_order [of demo "''layout/missing.html''" "[?A]",
         THEN conjunct1, rule_format, OF r1]
       CompileTemplate_order [of demo "''layout/index.html''" "[?A]",
         THEN conjunct2, rule_format, OF r2, THEN conjunct1, unfolded p2]
       CompileTemplate_order [of demo "''layout/index.html''" "[''{{define `head`'']",
         THEN conjunct2, rule_format, OF r2, THEN conjunct1, unfolded p3]
  show ?thesis by (intro conjI)
qed

text \<open>
  C3 as stated fails: with a template library that, like \<^verbatim>\<open>html/template\<close>, lets a later
  \<^verbatim>\<open>Parse\<close> define a block again, a second partial that defines \<^verbatim>\<open>head\<close> again compiles
  without error and its definition replaces the first.
\<close>

theorem CompileTemplate_redefinition_counterexample:
  "Parse demo [] ''{{define `head`}}A{{end}}'' = Inr [(''head'', ''A'')]
   \<and> Parse demo [(''head'', ''A'')] ''{{define `head`}}B{{end}}'' = Inr [(''head'', ''B'')]
   \<and> Engine_CompileTemplate demo ''layout/index.html''
        [''{{define `head`}}A{{end}}'', ''{{define `head`}}B{{end}}'']
      = Inr [(''head'', ''B''), ([], ''{{template `head`}}index'')]"
  by code_simp

section \<open>Properties of Render\<close>


























section \<open>Properties of Generate\<close>

text \<open>
  C9. \<^verbatim>\<open>Generate\<close> runs discovery, the creation of the output path, the rendering and
  the copy of the static assets, in this order, and stops at the first step that
  fails, returning that step's error: when discovery fails nothing else is done;
  when the creation of the output path fails nothing is rendered; when the rendering
  fails no static asset is copied; otherwise the result is the one of the copy of
  the static assets. The effects are those of the steps that ran, in order, and the
  rendering is given the posts that discovery returned. Discovery fails, and with it
  \<^verbatim>\<open>Generate\<close> without any effect, as soon as one entry under the images root is
  unreadable or one folder cannot be read as a post, whatever folders were read
  before.
\<close>

theorem Generate_sequence:
  "(\<forall>err. Engine_DiscoverPosts h e = Inl err \<longrightarrow> Engine_Generate h e = (Some err, []))
   \<and> (\<forall>posts. Engine_DiscoverPosts h e = Inr posts \<longrightarrow>
        (\<forall>err effs. Engine_CreateOutputPath h e = (Some err, effs) \<longrightarrow>
           Engine_Generate h e = (Some err, effs))
      \<and> (\<forall>effs. Engine_CreateOutputPath h e = (None, effs) \<longrightarrow>
           (\<forall>err effs1. Engine_Render h e posts = (Some err, effs1) \<longrightarrow>
              Engine_Generate h e = (Some err, effs @ effs1))
         \<and> (\<forall>effs1 r effs2. Engine_Render h e posts = (None, effs1)
                 \<and> Engine_CopyStatics h e = (r, effs2) \<longrightarrow>
              Engine_Generate h e = (r, effs @ effs1 @ effs2))))
   \<and> (\<not> readable h (ImagesOrDefault (Config e))
        \<or> (\<exists>p\<in>set (post_folders h (ImagesOrDefault (Config e))).
              \<exists>err. Engine_ReadImage h p = Inl err) \<longrightarrow>
      (\<exists>err. Engine_DiscoverPosts h e = Inl err \<and> Engine_Generate h e = (Some err, [])))"
proof -
  have "\<exists>err. Engine_DiscoverPosts h e = Inl err \<and> Engine_Generate h e = (Some err, [])"
    if "\<not> readable h (ImagesOrDefault (Config e))
        \<or> (\<exists>p\<in>set (post_folders h (ImagesOrDefault (Config e))).
              \<exists>err. Engine_ReadImage h p = Inl err)"
  proof -
    from DiscoverPosts_fails [OF that] obtain err where
      "Engine_DiscoverPosts h e = Inl err" by blast
    then show ?thesis by (simp add: Engine_Generate_def)
  qed
  then show ?thesis by (simp add: Engine_Generate_def)
qed

theorem Generate_sequence_witness:
  "Engine_Generate (demo\<lparr>Tree := \<lambda>root. Unreadable ''images'' (Underlying ''lstat: no such file'')\<rparr>)
     demo_Engine = (Some (Underlying ''lstat: no such file''), [])
   \<and> Engine_Generate (demo\<lparr>MakeDir := \<lambda>p. Some (Underlying ''permission denied'')\<rparr>) demo_Engine
     = (Some (Wrapped (Underlying ''permission denied'')), [])
   \<and> Engine_Generate (demo\<lparr>Create := \<lambda>p. Some (Underlying ''read-only file system'')\<rparr>) demo_Engine
     = (Some (Underlying ''read-only file system''), [MadeDir ''out''] @ [])
   \<and> Engine_Generate demo demo_Engine
     = (None, [MadeDir ''out'']
              @ snd (Engine_Render demo demo_Engine [demo_post_a, demo_post_b])
              @ [Copied ''static'' ''out''])
   \<and> Engine_ReadImage (demo\<lparr>ReadImage := \<lambda>p i. if p = ''images/a/b/y.png''
                            then Inl (Underlying ''image: unknown format'')
                            else demo_ReadImage p i\<rparr>) ''images/a'' = Inr demo_post_a
   \<and> Engine_Generate (demo\<lparr>ReadImage := \<lambda>p i. if p = ''images/a/b/y.png''
                            then Inl (Underlying ''image: unknown format'')
                            else demo_ReadImage p i\<rparr>) demo_Engine
     = (Some (Underlying ''image: unknown format''), [])"
proof -
  let ?h5 = "demo\<lparr>ReadImage := \<lambda>p i. if p = ''images/a/b/y.png''
                            then Inl (Underlying ''image: unknown format'')
                            else demo_ReadImage p i\<rparr>"
  have a5: "Engine_ReadImage ?h5 ''images/a'' = Inr demo_post_a" by code_simp
  have root: "ImagesOrDefault (Config demo_Engine) = ''images''" by code_simp
  have f5: "''images/a/b'' \<in> set (post_folders ?h5 ''images'')" by code_simp
  have b5: "Engine_ReadImage ?h5 ''images/a/b'' = Inl (Underlying ''image: unknown format'')"
    by code_simp
  have d5: "Engine_DiscoverPosts ?h5 demo_Engine = Inl (Underlying ''image: unknown format'')"
    by code_simp
  have pre5: "\<not> readable ?h5 ''images''
        \<or> (\<exists>p\<in>set (post_folders ?h5 ''images'').
              \<exists>err. Engine_ReadImage ?h5 p = Inl err)"
    using f5 b5 by blast
  from Generate_sequence [of ?h5 demo_Engine, unfolded root, THEN conjunct2, THEN conjunct2,
         rule_format, OF pre5] d5
  have g5: "Engine_Generate ?h5 demo_Engine = (Some (Underlying ''image: unknown format''), [])"
    by auto
  let ?posts = "[demo_post_a, demo_post_b]"
  let ?h1 = "demo\<lparr>Tree := \<lambda>root. Unreadable ''images'' (Underlying ''lstat: no such file'')\<rparr>"
  let ?h2 = "demo\<lparr>MakeDir := \<lambda>p. Some (Underlying ''permission denied'')\<rparr>"
  let ?h3 = "demo\<lparr>Create := \<lambda>p. Some (Underlying ''read-only file system'')\<rparr>"
  have d1: "Engine_DiscoverPosts ?h1 demo_Engine = Inl (Underlying ''lstat: no such file'')"
    by code_simp
  have d2: "Engine_DiscoverPosts ?h2 demo_Engine = Inr ?posts" by code_simp
  have d3: "Engine_DiscoverPosts ?h3 demo_Engine = Inr ?posts" by code_simp
  have d4: "Engine_DiscoverPosts demo demo_Engine = Inr ?posts" by code_simp
  have c2: "Engine_CreateOutputPath ?h2 demo_Engine
            = (Some (Wrapped (Underlying ''permission denied'')), [])" by code_simp
  have c3: "Engine_CreateOutputPath ?h3 demo_Engine = (None, [MadeDir ''out''])" by code_simp
  have c4: "Engine_CreateOutputPath demo demo_Engine = (None, [MadeDir ''out''])" by code_simp
  have r3: "Engine_Render ?h3 demo_Engine ?posts
            = (Some (Underlying ''read-only file system''), [])" by code_simp
  have ok: "fst (Engine_Render demo demo_Engine ?posts) = None" by code_simp
  have s4: "Engine_CopyStatics demo demo_Engine = (None, [Copied ''static'' ''out''])"
    by code_simp
  have r4: "Engine_Render demo demo_Engine ?posts
              = (None, snd (Engine_Render demo demo_Engine ?posts))
            \<and> Engine_CopyStatics demo demo_Engine = (None, [Copied ''static'' ''out''])"
    using ok s4 by (simp add: prod_eq_iff)
  from Generate_sequence [of ?h1 demo_Engine, THEN conjunct1, rule_format, OF d1]
       Generate_sequence [of ?h2 demo_Engine, THEN conjunct2, THEN conjunct1, rule_format, OF d2,
         THEN conjunct1, rule_format, OF c2]
       Generate_sequence [of ?h3 demo_Engine, THEN conjunct2, THEN conjunct1, rule_format, OF d3,
         THEN conjunct2, rule_format, OF c3, THEN conjunct1, rule_format, OF r3]
       Generate_sequence [of demo demo_Engine, THEN conjunct2, THEN conjunct1, rule_format, OF d4,
         THEN conjunct2, rule_format, OF c4, THEN conjunct2, rule_format, OF r4]
       a5 g5
  show ?thesis by (intro conjI)
qed

end
